theory Spec2Isabelle
  imports Main "HOL-Library.AList"
begin

section \<open>GrpcClient.ts: the action stream multiplexer\<close>

text \<open>
  The class \<open>GrpcClient\<close> owns one duplex stream, a sequence counter, a status and a
  table of pending callbacks. Its methods mutate these fields; here every method takes
  the object and returns the updated one. JavaScript identifiers that start with an
  underscore get the prefix \<open>u_\<close> (\<open>_sendMessage\<close> is \<open>u_sendMessage\<close>,
  \<open>__sendMessage\<close> is \<open>uu_sendMessage\<close>). The counter \<open>_seqId\<close> is a JavaScript
  number that only ever counts up from 0 by one; it is a \<open>nat\<close> here (the two agree
  below 2^53).
\<close>

subsection \<open>Data\<close>

type_synonym bytes = "nat list"

datatype Status = OK | SERVER_ERROR | SERVER_COMPLETE | CLIENT_ERROR | CLIENT_COMPLETE

text \<open>
  The three error classes that the file throws or passes on. \<open>IOError\<close> is a VError:
  an optional cause and a message. \<open>SubRequestCancelError\<close> keeps the trace id, the
  status given as reason, the optional cause and the optional extra message.
\<close>

datatype js_error =
    Error string
  | IOError "js_error option" string
  | SubRequestCancelError string Status "js_error option" "string option"

datatype WeChatRequest =
    SOCKETREQUEST string bytes
  | LONGLINKREQUEST bool nat bytes
  | SHORTLINKREQUEST string nat string bytes
  | REQUEST_NOT_SET

datatype WeChatResponse = LongLinkResponse bytes | ShortLinkResponse bytes

text \<open>
  The payload of an ActionMessage, one constructor per payload case that the file
  looks at; every other case is \<open>OtherPayload\<close> with its case name and content.
\<close>

datatype Message =
    WeChatRequestPayload WeChatRequest
  | SystemEventRequestPayload string
  | WeChatResponsePayload WeChatResponse
  | SystemEventResponse
  | OtherPayload string bytes

record ActionMessageHeader =
  hdr_seq :: "nat option"
  hdr_ack :: "nat option"

record ActionMessage =
  header :: "ActionMessageHeader option"
  payload :: Message

text \<open>The protobuf getters: a field that was never set reads as 0.\<close>

definition getSeq :: "ActionMessageHeader \<Rightarrow> nat" where
  "getSeq h = (case hdr_seq h of None \<Rightarrow> 0 | Some n \<Rightarrow> n)"

definition getAck :: "ActionMessageHeader \<Rightarrow> nat" where
  "getAck h = (case hdr_ack h of None \<Rightarrow> 0 | Some n \<Rightarrow> n)"

record SubResponseWrap =
  wrap_payload :: Message
  wrap_ack :: nat

datatype outcome = Resolved SubResponseWrap | Rejected js_error

text \<open>
  A PromiseCallback holds the resolve and reject closures of one promise and the id of
  one timer. Promises and timers are named by numbers; \<open>u_sendMessage\<close> creates one of
  each per awaited call and names both by the call's new sequence number.
\<close>

record PromiseCallback =
  promise :: nat
  timeoutId :: nat

datatype stream_op = Write ActionMessage | Cancel | End

datatype callback_call = OnSystemEvent string | OnMessage ActionMessage

text \<open>
  The object. \<open>grpcStream\<close> is the log of the calls made on the stream (write, cancel,
  end), oldest first. \<open>promises\<close> holds the promises that are settled, with their
  outcome; a promise that is not in it is still waiting. \<open>timers\<close> holds the timers that
  are armed, with their delay in milliseconds. \<open>callbacks\<close> is the log of the calls made
  to the two optional external callbacks.
\<close>

record GrpcClient =
  status :: Status
  seqId :: nat
  requestTimeout :: nat
  traceId :: string
  pendingCallbacks :: "(nat \<times> PromiseCallback) list"
  grpcStream :: "stream_op list"
  promises :: "(nat \<times> outcome) list"
  timers :: "(nat \<times> nat) list"
  onMessageCallback :: bool
  onSystemEventCallback :: bool
  callbacks :: "callback_call list"

record Options =
  opt_requestTimeout :: "nat option"
  opt_idempotentId :: "string option"

subsection \<open>Construction\<close>

definition DEFAULT_REQUEST_TIMEOUT :: nat where
  "DEFAULT_REQUEST_TIMEOUT = 60 * 1000"

text \<open>
  \<open>options?.requestTimeout || DEFAULT_REQUEST_TIMEOUT\<close>: a missing options object, a
  missing field and the value 0 all give the default. The trace id is drawn at random by
  the constructor; it is an argument here.
\<close>

definition constructor :: "string \<Rightarrow> Options option \<Rightarrow> GrpcClient" where
  "constructor tid options =
     \<lparr> status = OK,
       seqId = 0,
       requestTimeout =
         (case options of
            None \<Rightarrow> DEFAULT_REQUEST_TIMEOUT
          | Some opts \<Rightarrow>
              (case opt_requestTimeout opts of
                 None \<Rightarrow> DEFAULT_REQUEST_TIMEOUT
               | Some t \<Rightarrow> if t = 0 then DEFAULT_REQUEST_TIMEOUT else t)),
       traceId = tid,
       pendingCallbacks = [],
       grpcStream = [],
       promises = [],
       timers = [],
       onMessageCallback = False,
       onSystemEventCallback = False,
       callbacks = [] \<rparr>"

text \<open>The message template \<open>[tid:${this.traceId}] text\<close>.\<close>

definition tid_message :: "string \<Rightarrow> string \<Rightarrow> string" where
  "tid_message tid text = ''[tid:'' @ tid @ ''] '' @ text"

subsection \<open>Promises and timers\<close>

text \<open>A promise settles once: resolving or rejecting a settled promise does nothing.\<close>

definition settle :: "nat \<Rightarrow> outcome \<Rightarrow> (nat \<times> outcome) list \<Rightarrow> (nat \<times> outcome) list" where
  "settle p out ps = (case map_of ps p of None \<Rightarrow> ps @ [(p, out)] | Some _ \<Rightarrow> ps)"

text \<open>
  Modelled from the spec: the class PromiseCallback of utils/PromiseUtils is not among
  the sources. The spec says that a pending request holds a completion callback pair and
  a timeout handle, and that the timer handle stored alongside the pending entry is
  cancelled on non-timeout resolution. So \<open>resolve\<close> and \<open>reject\<close> call the promise's
  closure and clear the timer.
\<close>

definition PromiseCallback_resolve :: "GrpcClient \<Rightarrow> PromiseCallback \<Rightarrow> SubResponseWrap \<Rightarrow> GrpcClient" where
  "PromiseCallback_resolve s p res =
     s\<lparr> promises := settle (promise p) (Resolved res) (promises s),
        timers := AList.delete (timeoutId p) (timers s) \<rparr>"

definition PromiseCallback_reject :: "GrpcClient \<Rightarrow> PromiseCallback \<Rightarrow> js_error \<Rightarrow> GrpcClient" where
  "PromiseCallback_reject s p e =
     s\<lparr> promises := settle (promise p) (Rejected e) (promises s),
        timers := AList.delete (timeoutId p) (timers s) \<rparr>"

subsection \<open>Sending\<close>

text \<open>
  The protobuf setters \<open>setSeq\<close> and \<open>setAck\<close>: a field that \<open>__sendMessage\<close> does not
  set stays unset, and so does a field that is set to 0, the default of the field.
\<close>

definition setField :: "nat option \<Rightarrow> nat option" where
  "setField v = (case v of None \<Rightarrow> None | Some n \<Rightarrow> if n = 0 then None else Some n)"

text \<open>
  \<open>__sendMessage\<close>: the guard lets the statuses OK and SERVER_COMPLETE through and
  throws for the other three; otherwise one frame is written, with \<open>seq\<close> and \<open>ack\<close> set
  only where they are given.
\<close>

definition uu_sendMessage :: "GrpcClient \<Rightarrow> Message \<Rightarrow> nat option \<Rightarrow> nat option \<Rightarrow> js_error + GrpcClient" where
  "uu_sendMessage s pl seq ack =
     (if status s \<noteq> OK \<and> status s \<noteq> SERVER_COMPLETE then
        Inl (SubRequestCancelError (traceId s) (status s) None
               (Some ''can not send message while stream status is not illegal''))
      else
        Inr (s\<lparr> grpcStream := grpcStream s @
                 [Write \<lparr> header = Some \<lparr> hdr_seq = setField seq, hdr_ack = setField ack \<rparr>,
                          payload = pl \<rparr>] \<rparr>))"

text \<open>
  What a call of the async method \<open>_sendMessage\<close> gives its caller: a promise that is
  already fulfilled (send only), one that is already rejected with the error thrown
  (send only, guard failed), or the new promise of the given name.
\<close>

datatype call_result = Fulfilled | Thrown js_error | Awaiting nat

text \<open>
  \<open>_sendMessage\<close>. In the awaited branch the counter is advanced, the timer armed and
  the callback stored before \<open>__sendMessage\<close> runs; when that throws, inside the
  promise's executor, the promise is rejected with the error and the stored entry stays.
\<close>

definition u_sendMessage :: "GrpcClient \<Rightarrow> Message \<Rightarrow> bool \<Rightarrow> nat option \<Rightarrow> call_result \<times> GrpcClient" where
  "u_sendMessage s request sendOnly ack =
     (if sendOnly then
        (case uu_sendMessage s request None ack of
           Inl e \<Rightarrow> (Thrown e, s)
         | Inr s' \<Rightarrow> (Fulfilled, s'))
      else
        (let newSeqId = seqId s + 1;
             s1 = s\<lparr> seqId := newSeqId \<rparr>;
             s2 = s1\<lparr> timers := AList.update newSeqId (requestTimeout s1) (timers s1) \<rparr>;
             s3 = s2\<lparr> pendingCallbacks :=
                        AList.update newSeqId \<lparr> promise = newSeqId, timeoutId = newSeqId \<rparr>
                          (pendingCallbacks s2) \<rparr>
         in case uu_sendMessage s3 request (Some newSeqId) ack of
              Inl e \<Rightarrow> (Awaiting newSeqId,
                        s3\<lparr> promises := settle newSeqId (Rejected e) (promises s3) \<rparr>)
            | Inr s4 \<Rightarrow> (Awaiting newSeqId, s4)))"

definition subRequest :: "GrpcClient \<Rightarrow> Message \<Rightarrow> bool \<Rightarrow> call_result \<times> GrpcClient" where
  "subRequest s request sendOnly = u_sendMessage s request sendOnly None"

text \<open>\<open>request\<close> awaits \<open>subRequest(request, false)\<close> and hands on the payload of its result.\<close>

definition request :: "GrpcClient \<Rightarrow> Message \<Rightarrow> call_result \<times> GrpcClient" where
  "request s req = subRequest s req False"

text \<open>
  \<open>subReply\<close> starts \<open>_sendMessage(replay, true, ack)\<close> and drops its promise: an error
  thrown by the guard reaches nobody.
\<close>

definition subReply :: "GrpcClient \<Rightarrow> nat \<Rightarrow> Message \<Rightarrow> GrpcClient" where
  "subReply s ack replay = snd (u_sendMessage s replay True (Some ack))"

definition subReplyAndRequest :: "GrpcClient \<Rightarrow> nat \<Rightarrow> Message \<Rightarrow> call_result \<times> GrpcClient" where
  "subReplyAndRequest s ack req = u_sendMessage s req False (Some ack)"

subsection \<open>The pending table\<close>

definition u_completePendingRequest :: "GrpcClient \<Rightarrow> nat \<Rightarrow> Message \<Rightarrow> nat \<Rightarrow> GrpcClient" where
  "u_completePendingRequest s ack pl seq =
     (let p = map_of (pendingCallbacks s) ack;
          s1 = s\<lparr> pendingCallbacks := AList.delete ack (pendingCallbacks s) \<rparr>
      in case p of
           None \<Rightarrow> s1
         | Some cb \<Rightarrow> PromiseCallback_resolve s1 cb \<lparr> wrap_payload = pl, wrap_ack = seq \<rparr>)"

definition u_failPendingRequest :: "GrpcClient \<Rightarrow> nat \<Rightarrow> js_error \<Rightarrow> GrpcClient" where
  "u_failPendingRequest s ack e =
     (let p = map_of (pendingCallbacks s) ack;
          s1 = s\<lparr> pendingCallbacks := AList.delete ack (pendingCallbacks s) \<rparr>
      in case p of
           None \<Rightarrow> s1
         | Some cb \<Rightarrow> PromiseCallback_reject s1 cb e)"

text \<open>The loop over the entries of the table, in the table's order.\<close>

fun reject_each :: "GrpcClient \<Rightarrow> (nat \<times> PromiseCallback) list \<Rightarrow> js_error \<Rightarrow> GrpcClient" where
  "reject_each s [] e = s"
| "reject_each s ((k, p) # rest) e = reject_each (PromiseCallback_reject s p e) rest e"

definition u_failAllPendingRequest :: "GrpcClient \<Rightarrow> Status \<Rightarrow> js_error \<Rightarrow> GrpcClient" where
  "u_failAllPendingRequest s st err =
     (let e = SubRequestCancelError (traceId s) st (Some err) None;
          s1 = reject_each s (pendingCallbacks s) e
      in s1\<lparr> pendingCallbacks := [] \<rparr>)"

subsection \<open>Status transitions\<close>

text \<open>The handlers of the stream's events "end" and "error", set up by the constructor.\<close>

definition on_end :: "GrpcClient \<Rightarrow> GrpcClient" where
  "on_end s =
     (if status s \<noteq> OK then s
      else (u_failAllPendingRequest s SERVER_COMPLETE (Error ''Server complete''))
             \<lparr> status := SERVER_COMPLETE \<rparr>)"

definition on_error :: "GrpcClient \<Rightarrow> js_error \<Rightarrow> GrpcClient" where
  "on_error s err =
     (if status s \<noteq> OK then s
      else (u_failAllPendingRequest s SERVER_ERROR err) \<lparr> status := SERVER_ERROR \<rparr>)"

definition error :: "GrpcClient \<Rightarrow> js_error \<Rightarrow> GrpcClient" where
  "error s e =
     (if status s \<noteq> OK then s
      else (let s1 = u_failAllPendingRequest s CLIENT_ERROR e;
                s2 = s1\<lparr> status := CLIENT_ERROR \<rparr>
            in s2\<lparr> grpcStream := grpcStream s2 @ [Cancel] \<rparr>))"

definition complete :: "GrpcClient \<Rightarrow> GrpcClient" where
  "complete s =
     (if status s \<noteq> OK then s
      else (let s1 = u_failAllPendingRequest s CLIENT_COMPLETE (Error ''Grpc client complete'');
                s2 = s1\<lparr> status := CLIENT_COMPLETE \<rparr>
            in s2\<lparr> grpcStream := grpcStream s2 @ [End] \<rparr>))"

subsection \<open>Reading\<close>

text \<open>
  The three proxies (WeChatSocketProxy, the long link proxy of the client,
  WeChatShortLinkProxy) are not part of this file. What an awaited call on one of them
  does is an argument of the handler: it raises, or it returns the response bytes. The
  handler gives back the error it lets through, or the updated object.
\<close>

datatype transport = Raises js_error | Responds bytes

definition u_handleSocketRequest :: "GrpcClient \<Rightarrow> string \<Rightarrow> bytes \<Rightarrow> nat \<Rightarrow> transport \<Rightarrow> js_error + GrpcClient" where
  "u_handleSocketRequest s host pl ack t =
     (case t of Raises e \<Rightarrow> Inl e | Responds _ \<Rightarrow> Inr s)"

definition u_handleLongLinkRequest :: "GrpcClient \<Rightarrow> bool \<Rightarrow> nat \<Rightarrow> bytes \<Rightarrow> nat \<Rightarrow> transport \<Rightarrow> js_error + GrpcClient" where
  "u_handleLongLinkRequest s initmode lseq pl ack t =
     (case t of
        Raises e \<Rightarrow> Inl e
      | Responds responseData \<Rightarrow>
          if initmode then Inr s
          else Inr (subReply s ack (WeChatResponsePayload (LongLinkResponse responseData))))"

definition u_handleShortLinkRequest :: "GrpcClient \<Rightarrow> string \<Rightarrow> nat \<Rightarrow> string \<Rightarrow> bytes \<Rightarrow> nat \<Rightarrow> transport \<Rightarrow> js_error + GrpcClient" where
  "u_handleShortLinkRequest s host port path pl ack t =
     (case t of
        Raises e \<Rightarrow> Inl e
      | Responds responseData \<Rightarrow>
          Inr (subReply s ack (WeChatResponsePayload (ShortLinkResponse responseData))))"

text \<open>The body of the \<open>try\<close> block: the dispatch on the request case.\<close>

definition forward :: "GrpcClient \<Rightarrow> WeChatRequest \<Rightarrow> nat \<Rightarrow> transport \<Rightarrow> js_error + GrpcClient" where
  "forward s weChatRequest seq t =
     (case weChatRequest of
        SOCKETREQUEST host pl \<Rightarrow> u_handleSocketRequest s host pl seq t
      | LONGLINKREQUEST initmode lseq pl \<Rightarrow> u_handleLongLinkRequest s initmode lseq pl seq t
      | SHORTLINKREQUEST host port path pl \<Rightarrow> u_handleShortLinkRequest s host port path pl seq t
      | REQUEST_NOT_SET \<Rightarrow> Inl (Error ''unsupported wechat request case: 0''))"

text \<open>
  \<open>_onServerMessage\<close>. A frame without header makes \<open>getHeader()!.getSeq()\<close> throw; the
  promise of the handler is dropped by the "data" listener, so nothing happens.
\<close>

definition u_onServerMessage :: "GrpcClient \<Rightarrow> ActionMessage \<Rightarrow> transport \<Rightarrow> GrpcClient" where
  "u_onServerMessage s serverMessage t =
     (case header serverMessage of
        None \<Rightarrow> s
      | Some h \<Rightarrow>
          (let seq = getSeq h; ack = getAck h in
           if ack \<noteq> 0 then u_completePendingRequest s ack (payload serverMessage) seq
           else
             (case payload serverMessage of
                WeChatRequestPayload weChatRequest \<Rightarrow>
                  (case forward s weChatRequest seq t of
                     Inr s' \<Rightarrow> s'
                   | Inl e \<Rightarrow>
                       error s (IOError (Some e)
                         (tid_message (traceId s) ''Exception while forwarding message to wechat'')))
              | SystemEventRequestPayload ev \<Rightarrow>
                  (let s1 = subReply s seq SystemEventResponse in
                   if onSystemEventCallback s1
                   then s1\<lparr> callbacks := callbacks s1 @ [OnSystemEvent ev] \<rparr>
                   else s1)
              | _ \<Rightarrow>
                  (if onMessageCallback s
                   then s\<lparr> callbacks := callbacks s @ [OnMessage serverMessage] \<rparr>
                   else s))))"

subsection \<open>Timers and runs\<close>

text \<open>
  The callback given to \<open>setTimeout\<close> by \<open>_sendMessage\<close> for the sequence number \<open>k\<close>.
  It can only run while its timer is armed; it runs once.
\<close>

definition timer_fires :: "GrpcClient \<Rightarrow> nat \<Rightarrow> GrpcClient" where
  "timer_fires s k =
     (case map_of (timers s) k of
        None \<Rightarrow> s
      | Some _ \<Rightarrow>
          u_failPendingRequest (s\<lparr> timers := AList.delete k (timers s) \<rparr>) k
            (IOError None (tid_message (traceId s) ''subRequest timeout'')))"

text \<open>
  Everything that can happen to one object, and a run of such events. The last two events
  are the owner assigning (or clearing) one of the two public callback fields.
\<close>

datatype event =
    CallRequest Message
  | CallSendOnly Message
  | CallSubReply nat Message
  | CallSubReplyAndRequest nat Message
  | StreamData ActionMessage transport
  | StreamEnd
  | StreamError js_error
  | CallError js_error
  | CallComplete
  | TimerFires nat
  | SetOnMessageCallback bool
  | SetOnSystemEventCallback bool

fun step :: "GrpcClient \<Rightarrow> event \<Rightarrow> GrpcClient" where
  "step s (CallRequest m) = snd (request s m)"
| "step s (CallSendOnly m) = snd (subRequest s m True)"
| "step s (CallSubReply a m) = subReply s a m"
| "step s (CallSubReplyAndRequest a m) = snd (subReplyAndRequest s a m)"
| "step s (StreamData f t) = u_onServerMessage s f t"
| "step s StreamEnd = on_end s"
| "step s (StreamError e) = on_error s e"
| "step s (CallError e) = error s e"
| "step s CallComplete = complete s"
| "step s (TimerFires k) = timer_fires s k"
| "step s (SetOnMessageCallback b) = s\<lparr> onMessageCallback := b \<rparr>"
| "step s (SetOnSystemEventCallback b) = s\<lparr> onSystemEventCallback := b \<rparr>"

definition run :: "GrpcClient \<Rightarrow> event list \<Rightarrow> GrpcClient" where
  "run s evs = foldl step s evs"

text \<open>A list of awaited requests, one after the other: the promises they get.\<close>

fun requests :: "GrpcClient \<Rightarrow> Message list \<Rightarrow> call_result list \<times> GrpcClient" where
  "requests s [] = ([], s)"
| "requests s (m # ms) =
     (let (r, s1) = request s m; (rs, s2) = requests s1 ms in (r # rs, s2))"

text \<open>
  The promises handed out along a run, in order: one by each call of \<open>request\<close> and of
  \<open>subReplyAndRequest\<close>, none by the other events.
\<close>

fun awaited :: "event \<Rightarrow> bool" where
  "awaited (CallRequest m) = True"
| "awaited (CallSubReplyAndRequest a m) = True"
| "awaited _ = False"

fun handed_out :: "GrpcClient \<Rightarrow> event \<Rightarrow> call_result list" where
  "handed_out s (CallRequest m) = [fst (request s m)]"
| "handed_out s (CallSubReplyAndRequest a m) = [fst (subReplyAndRequest s a m)]"
| "handed_out s _ = []"

fun allocated :: "GrpcClient \<Rightarrow> event list \<Rightarrow> call_result list" where
  "allocated s [] = []"
| "allocated s (ev # evs) = handed_out s ev @ allocated (step s ev) evs"

section \<open>utils/FileUtils.ts: the file transfer pipeline\<close>

subsection \<open>Upload\<close>

text \<open>
  The cipher, the checksum and the hash come from utils/crypto, the image probes from
  utils/MediaUtils; neither is part of this file. They are arguments: a record of the
  functions that FileUtils calls. The two image probes are awaited and may raise.
  \<open>AesGenKey()\<close> draws a key at random: the key it gives, were it called, is an
  argument of its own (\<open>fresh\<close>).
\<close>

record crypto =
  AesEcbEncrypt :: "bytes \<Rightarrow> bytes \<Rightarrow> bytes"
  adler32 :: "bytes \<Rightarrow> nat \<Rightarrow> nat"
  md5 :: "bytes \<Rightarrow> string"


record FileUploadDataMeta =
  dm_size :: nat
  dm_checksum :: nat
  dm_md5 :: string

record FileUploadEncryptedDataMeta =
  em_aeskey :: bytes
  em_size :: nat
  em_checksum :: nat
  em_md5 :: string

record upload_data =
  plainDataMeta :: FileUploadDataMeta
  encryptedDataMeta :: FileUploadEncryptedDataMeta
  encryptedData :: bytes

text \<open>
  \<open>aesKey = aesKey || AesGenKey()\<close>: a buffer is an object, hence truthy also when it
  is empty, so the fresh key is taken exactly when no key is given.
\<close>

definition encryptUploadData :: "crypto \<Rightarrow> bytes \<Rightarrow> bytes \<Rightarrow> bytes option \<Rightarrow> upload_data" where
  "encryptUploadData c fresh plainData aesKey =
     (let key = (case aesKey of Some k \<Rightarrow> k | None \<Rightarrow> fresh);
          enc = AesEcbEncrypt c key plainData
      in \<lparr> plainDataMeta =
             \<lparr> dm_size = length plainData,
               dm_checksum = adler32 c plainData 0,
               dm_md5 = md5 c plainData \<rparr>,
           encryptedDataMeta =
             \<lparr> em_aeskey = key,
               em_size = length enc,
               em_checksum = adler32 c enc 0,
               em_md5 = md5 c enc \<rparr>,
           encryptedData = enc \<rparr>)"

record FileUploadImageMeta =
  im_plaindatameta :: FileUploadDataMeta
  im_encrypteddatameta :: FileUploadEncryptedDataMeta
  im_width :: nat
  im_height :: nat



record FileUploadImageParams =
  imagemeta :: FileUploadImageMeta
  thumbimagemeta :: "FileUploadImageMeta option"

text \<open>
  The data bag is a JavaScript object used as a dictionary from content hash to bytes:
  assigning to a key that is there already replaces its value.
\<close>

record image_upload =
  params :: FileUploadImageParams
  aesKey :: bytes
  dataBag :: "(string \<times> bytes) list"


subsection \<open>Download\<close>

record FileResponse =
  body :: "(string \<times> bytes) list"

text \<open>
  The frame decoder FileUnpacker is not part of this file. Its state is of any type
  \<open>'d\<close>; its constructor (from the key), \<open>reset\<close> and \<open>update\<close> are arguments, and so are
  \<open>FileResponse.unpackInteger\<close> and the cipher that it decrypts with, both of which get
  what the lookup in \<open>body\<close> gives, also when that is undefined.
\<close>

record 'd unpacker =
  fu_new :: "bytes \<Rightarrow> 'd"
  fu_reset :: "'d \<Rightarrow> 'd"
  fu_update :: "'d \<Rightarrow> bytes \<Rightarrow> FileResponse list \<times> 'd"
  fu_unpackInteger :: "bytes option \<Rightarrow> int"
  fu_decrypt :: "bytes \<Rightarrow> bytes option \<Rightarrow> bytes"

text \<open>
  Modelled from the spec: the method getDecryptedFileData of FileUnpacker is not among
  the sources. The spec says: extract the named encrypted-file-data field and decrypt it
  using the symmetric key embedded in the original request. The key is the one the
  decoder was constructed with.
\<close>

definition getDecryptedFileData :: "'d unpacker \<Rightarrow> bytes \<Rightarrow> FileResponse \<Rightarrow> bytes" where
  "getDecryptedFileData u key response = fu_decrypt u key (map_of (body response) ''filedata'')"

record FileDownloadRequest =
  dl_host :: string
  dl_port :: nat
  dl_payload :: bytes
  dl_unpackaeskey :: bytes

text \<open>
  The \<open>onReceive\<close> closure. It works on the decoder and on the local variable
  \<open>response\<close>, and answers whether it is done.
\<close>

definition onReceive :: "'d unpacker \<Rightarrow> 'd \<times> FileResponse option \<Rightarrow> bytes \<Rightarrow> bool \<times> ('d \<times> FileResponse option)" where
  "onReceive u st data =
     (let (responseList, d') = fu_update u (fst st) data in
      case responseList of
        r # _ \<Rightarrow> (True, (d', Some r))
      | [] \<Rightarrow> (False, (d', snd st)))"

text \<open>
  Modelled from the spec: the class SocketClient of link/SocketClient is not among the
  sources. The spec gives its contract: \<open>send(bytes)\<close> with an \<open>onReceive(bytes)\<close> callback
  that answers whether the data was consumed, and an \<open>onConnect()\<close> hook; each inbound
  byte chunk is fed to the callback and the session stops as soon as the callback says
  so. What the peer sends is an argument: the chunks in order, and whether the session
  then breaks with an error or just ends.
\<close>

fun receive_chunks :: "('st \<Rightarrow> bytes \<Rightarrow> bool \<times> 'st) \<Rightarrow> 'st \<Rightarrow> bytes list \<Rightarrow> bool \<times> 'st" where
  "receive_chunks f st [] = (False, st)"
| "receive_chunks f st (c # cs) =
     (let (done, st') = f st c in if done then (True, st') else receive_chunks f st' cs)"

definition SocketClient_send ::
    "('st \<Rightarrow> 'st) \<Rightarrow> ('st \<Rightarrow> bytes \<Rightarrow> bool \<times> 'st) \<Rightarrow> 'st \<Rightarrow> bytes list \<Rightarrow> js_error option \<Rightarrow> js_error + 'st" where
  "SocketClient_send onConnect onRecv st chunks failure =
     (let (done, st') = receive_chunks onRecv (onConnect st) chunks in
      if done then Inr st'
      else (case failure of None \<Rightarrow> Inr st' | Some e \<Rightarrow> Inl e))"

text \<open>
  What \<open>downloadFile\<close> throws: the two errors of its own (their messages carry timings,
  left out here) and whatever the socket session raised.
\<close>

datatype download_error = ReceivedNullResponse | Retcode int | SocketFailed js_error

definition downloadFile ::
    "'d unpacker \<Rightarrow> FileDownloadRequest \<Rightarrow> bytes list \<Rightarrow> js_error option \<Rightarrow> download_error + bytes" where
  "downloadFile u fileDownloadRequest chunks failure =
     (let fileUnpacker = fu_new u (dl_unpackaeskey fileDownloadRequest) in
      case SocketClient_send (\<lambda>st. (fu_reset u (fst st), snd st)) (onReceive u)
             (fileUnpacker, None) chunks failure of
        Inl e \<Rightarrow> Inl (SocketFailed e)
      | Inr (d, response) \<Rightarrow>
          (case response of
             None \<Rightarrow> Inl ReceivedNullResponse
           | Some r \<Rightarrow>
               (let retCode = fu_unpackInteger u (map_of (body r) ''retcode'') in
                if retCode \<noteq> 0 then Inl (Retcode retCode)
                else Inr (getDecryptedFileData u (dl_unpackaeskey fileDownloadRequest) r))))"

text \<open>The frame that an awaited request without ack writes: its number and its payload.\<close>

definition request_frame :: "nat \<times> Message \<Rightarrow> stream_op" where
  "request_frame km =
     Write \<lparr> header = Some \<lparr> hdr_seq = Some (fst km), hdr_ack = None \<rparr>, payload = snd km \<rparr>"

section \<open>Names in use\<close>

text \<open>
  The property that every run keeps: the keys of the table are distinct, every entry of
  the table holds the promise and the timer named by its key, and every name in use
  (key, settled promise, armed timer) lies between 1 and the counter.
\<close>

definition well_named :: "GrpcClient \<Rightarrow> bool" where
  "well_named s =
     (distinct (map fst (pendingCallbacks s)) \<and>
      (\<forall>(k, cb) \<in> set (pendingCallbacks s).
         1 \<le> k \<and> k \<le> seqId s \<and> promise cb = k \<and> timeoutId cb = k) \<and>
      (\<forall>k \<in> fst ` set (promises s). 1 \<le> k \<and> k \<le> seqId s) \<and>
      (\<forall>k \<in> fst ` set (timers s). 1 \<le> k \<and> k \<le> seqId s))"

section \<open>Concrete objects and frames\<close>

text \<open>
  A fresh object on which \<open>request\<close> was called once; a payload; a fresh object whose
  stream has ended; a fresh object on which \<open>error\<close> was called; an inbound frame whose
  proxied request has no case set.
\<close>

definition ex_client :: GrpcClient where
  "ex_client = snd (request (constructor ''t1'' None) (OtherPayload ''ping'' []))"

definition ex_ping :: Message where
  "ex_ping = OtherPayload ''ping'' []"

definition ex_half_closed :: GrpcClient where
  "ex_half_closed = on_end (constructor ''t1'' None)"

definition ex_failed :: GrpcClient where
  "ex_failed = error (constructor ''t1'' None) (Error ''boom'')"

definition ex_unsupported :: ActionMessage where
  "ex_unsupported =
     \<lparr> header = Some \<lparr> hdr_seq = Some 7, hdr_ack = None \<rparr>,
       payload = WeChatRequestPayload REQUEST_NOT_SET \<rparr>"

text \<open>A run with three awaited calls among other events.\<close>

definition ex_events :: "event list" where
  "ex_events =
     [CallRequest ex_ping, StreamEnd, CallSubReplyAndRequest 9 ex_ping, CallSendOnly ex_ping,
      TimerFires 2, CallRequest ex_ping]"

text \<open>
  An inbound reply to request 1 that itself asks for a reply under 5; the object with a
  second request pending; an inbound system event.
\<close>

definition ex_reply :: ActionMessage where
  "ex_reply =
     \<lparr> header = Some \<lparr> hdr_seq = Some 5, hdr_ack = Some 1 \<rparr>,
       payload = OtherPayload ''pong'' [1, 2] \<rparr>"

definition ex_two :: GrpcClient where
  "ex_two = snd (request ex_client ex_ping)"

definition ex_system_event :: ActionMessage where
  "ex_system_event =
     \<lparr> header = Some \<lparr> hdr_seq = Some 3, hdr_ack = None \<rparr>,
       payload = SystemEventRequestPayload ''login'' \<rparr>"

text \<open>An inbound short link request that asks for a reply under 4.\<close>

definition ex_short_link :: ActionMessage where
  "ex_short_link =
     \<lparr> header = Some \<lparr> hdr_seq = Some 4, hdr_ack = None \<rparr>,
       payload = WeChatRequestPayload (SHORTLINKREQUEST ''host'' 80 ''/cgi'' [1]) \<rparr>"

section \<open>Notions for the download path\<close>

text \<open>
  The decoder after it was fed a list of chunks, and the property of a list of chunks
  that, fed one after the other, none of them makes the decoder give a frame.
\<close>

fun feed :: "'d unpacker \<Rightarrow> 'd \<Rightarrow> bytes list \<Rightarrow> 'd" where
  "feed u d [] = d"
| "feed u d (c # cs) = feed u (snd (fu_update u d c)) cs"

fun quiet :: "'d unpacker \<Rightarrow> 'd \<Rightarrow> bytes list \<Rightarrow> bool" where
  "quiet u d [] = True"
| "quiet u d (c # cs) = (fst (fu_update u d c) = [] \<and> quiet u (snd (fu_update u d c)) cs)"

section \<open>Stand-ins for the absent collaborators\<close>

text \<open>
  Small functions to run the pipeline on: a cipher that puts the key in front of the
  data (it is undone by dropping as many bytes as the key has), a checksum, a hash, two
  image probes, the upload they give for the image 1, 2, 3 under the key 7, a decoder
  that gives a frame as soon as it holds two bytes, and a download request.
\<close>

definition ex_crypto :: crypto where
  "ex_crypto =
     \<lparr> AesEcbEncrypt = (\<lambda>key plain. key @ plain),
       adler32 = (\<lambda>d seed. (seed + sum_list d) mod 65521),
       md5 = (\<lambda>d. replicate (length d) CHR ''a'') \<rparr>"

definition ex_decrypt :: "bytes \<Rightarrow> bytes \<Rightarrow> bytes" where
  "ex_decrypt key enc = drop (length key) enc"




definition ex_unpacker :: "bytes unpacker" where
  "ex_unpacker =
     \<lparr> fu_new = (\<lambda>key. []),
       fu_reset = (\<lambda>d. []),
       fu_update = (\<lambda>d data.
         (case d @ data of
            code # x # rest \<Rightarrow>
              ([\<lparr> body = [(''retcode'', [code]), (''filedata'', x # rest)] \<rparr>], [])
          | buf \<Rightarrow> ([], buf))),
       fu_unpackInteger = (\<lambda>field. case field of Some [code] \<Rightarrow> int code | _ \<Rightarrow> - 1),
       fu_decrypt = (\<lambda>key field. case field of Some d \<Rightarrow> drop (length key) d | None \<Rightarrow> []) \<rparr>"

definition ex_download :: FileDownloadRequest where
  "ex_download = \<lparr> dl_host = ''h'', dl_port = 80, dl_payload = [4], dl_unpackaeskey = [9] \<rparr>"

section \<open>Verification: the multiplexer\<close>

lemma setField_simps [simp]:
  "setField None = None"
  "setField (Some 0) = None"
  "n \<noteq> 0 \<Longrightarrow> setField (Some n) = Some n"
  by (simp_all add: setField_def)

lemma settle_map_of:
  "map_of (settle p out ps) q =
     (case map_of ps q of Some v \<Rightarrow> Some v | None \<Rightarrow> if q = p then Some out else None)"
  by (auto simp: settle_def map_add_def split: option.splits)

lemma reject_each_fields [simp]:
  "status (reject_each s ps e) = status s"
  "seqId (reject_each s ps e) = seqId s"
  "requestTimeout (reject_each s ps e) = requestTimeout s"
  "traceId (reject_each s ps e) = traceId s"
  "pendingCallbacks (reject_each s ps e) = pendingCallbacks s"
  "grpcStream (reject_each s ps e) = grpcStream s"
  "onMessageCallback (reject_each s ps e) = onMessageCallback s"
  "onSystemEventCallback (reject_each s ps e) = onSystemEventCallback s"
  "callbacks (reject_each s ps e) = callbacks s"
  by (induction s ps e rule: reject_each.induct) (simp_all add: PromiseCallback_reject_def)

lemma reject_each_promises:
  "map_of (promises (reject_each s ps e)) q =
     (case map_of (promises s) q of
        Some v \<Rightarrow> Some v
      | None \<Rightarrow> if q \<in> promise ` snd ` set ps then Some (Rejected e) else None)"
  by (induction s ps e rule: reject_each.induct)
     (auto simp: PromiseCallback_reject_def settle_map_of split: option.splits)

lemma failAll_fields [simp]:
  "status (u_failAllPendingRequest s st err) = status s"
  "seqId (u_failAllPendingRequest s st err) = seqId s"
  "requestTimeout (u_failAllPendingRequest s st err) = requestTimeout s"
  "traceId (u_failAllPendingRequest s st err) = traceId s"
  "pendingCallbacks (u_failAllPendingRequest s st err) = []"
  "grpcStream (u_failAllPendingRequest s st err) = grpcStream s"
  "onMessageCallback (u_failAllPendingRequest s st err) = onMessageCallback s"
  "onSystemEventCallback (u_failAllPendingRequest s st err) = onSystemEventCallback s"
  "callbacks (u_failAllPendingRequest s st err) = callbacks s"
  by (simp_all add: u_failAllPendingRequest_def Let_def)

lemma failAll_promises:
  "map_of (promises (u_failAllPendingRequest s st err)) q =
     (case map_of (promises s) q of
        Some v \<Rightarrow> Some v
      | None \<Rightarrow>
          if q \<in> promise ` snd ` set (pendingCallbacks s)
          then Some (Rejected (SubRequestCancelError (traceId s) st (Some err) None))
          else None)"
  by (simp add: u_failAllPendingRequest_def Let_def reject_each_promises)

lemma u_sendMessage_status [simp]: "status (snd (u_sendMessage s m so a)) = status s"
  by (auto simp: u_sendMessage_def Let_def uu_sendMessage_def split: sum.splits if_splits)

lemma subReply_status [simp]: "status (subReply s a m) = status s"
  by (simp add: subReply_def)

lemma complete_pending_status [simp]: "status (u_completePendingRequest s a m q) = status s"
  by (simp add: u_completePendingRequest_def Let_def PromiseCallback_resolve_def split: option.splits)

lemma fail_pending_status [simp]: "status (u_failPendingRequest s a e) = status s"
  by (simp add: u_failPendingRequest_def Let_def PromiseCallback_reject_def split: option.splits)

lemma forward_status: "forward s r q t = Inr s' \<Longrightarrow> status s' = status s"
  by (auto simp: forward_def u_handleSocketRequest_def u_handleLongLinkRequest_def
      u_handleShortLinkRequest_def split: WeChatRequest.splits transport.splits if_splits)

lemma forward_raises:
  "forward s r q t = Inl e \<longleftrightarrow>
     (r = REQUEST_NOT_SET \<and> e = Error ''unsupported wechat request case: 0'') \<or>
     (r \<noteq> REQUEST_NOT_SET \<and> t = Raises e)"
  by (auto simp: forward_def u_handleSocketRequest_def u_handleLongLinkRequest_def
      u_handleShortLinkRequest_def split: WeChatRequest.splits transport.splits if_splits)

lemma step_terminal: "status s \<noteq> OK \<Longrightarrow> status (step s ev) = status s"
  by (cases ev)
     (auto simp: request_def subRequest_def subReplyAndRequest_def u_onServerMessage_def Let_def
        on_end_def on_error_def error_def complete_def timer_fires_def
        dest: forward_status split: option.splits Message.splits sum.splits)

lemma run_terminal: "status s \<noteq> OK \<Longrightarrow> status (run s evs) = status s"
  unfolding run_def by (induction evs arbitrary: s) (simp_all add: step_terminal)

subsection \<open>The names in use stay well formed along every run\<close>

lemma set_update_subset: "set (AList.update k v al) \<subseteq> insert (k, v) (set al)"
  by (induction al) auto

lemma set_delete_subset: "set (AList.delete k al) \<subseteq> set al"
  by (auto simp: AList.delete_eq)

lemma set_settle_subset: "set (settle p out ps) \<subseteq> insert (p, out) (set ps)"
  by (auto simp: settle_def split: option.splits)

lemma well_named_reject:
  assumes "well_named s" and "1 \<le> promise p" and "promise p \<le> seqId s"
  shows "well_named (PromiseCallback_reject s p e)"
  using assms set_settle_subset [of "promise p" "Rejected e" "promises s"]
    set_delete_subset [of "timeoutId p" "timers s"]
  unfolding well_named_def PromiseCallback_reject_def by fastforce

lemma well_named_resolve:
  assumes "well_named s" and "1 \<le> promise p" and "promise p \<le> seqId s"
  shows "well_named (PromiseCallback_resolve s p r)"
  using assms set_settle_subset [of "promise p" "Resolved r" "promises s"]
    set_delete_subset [of "timeoutId p" "timers s"]
  unfolding well_named_def PromiseCallback_resolve_def by fastforce

lemma well_named_drop:
  assumes "well_named s"
  shows "well_named (s\<lparr> pendingCallbacks := AList.delete k (pendingCallbacks s) \<rparr>)"
  using assms set_delete_subset [of k "pendingCallbacks s"]
  unfolding well_named_def by (auto simp: distinct_delete)

lemma well_named_entry:
  "well_named s \<Longrightarrow> map_of (pendingCallbacks s) k = Some cb \<Longrightarrow>
     1 \<le> k \<and> k \<le> seqId s \<and> promise cb = k \<and> timeoutId cb = k"
  unfolding well_named_def by (auto dest: map_of_SomeD)

lemma well_named_complete:
  "well_named s \<Longrightarrow> well_named (u_completePendingRequest s k m q)"
  using well_named_entry [of s k]
  by (auto simp: u_completePendingRequest_def Let_def split: option.splits
      intro!: well_named_resolve well_named_drop)

lemma well_named_fail:
  "well_named s \<Longrightarrow> well_named (u_failPendingRequest s k e)"
  using well_named_entry [of s k]
  by (auto simp: u_failPendingRequest_def Let_def split: option.splits
      intro!: well_named_reject well_named_drop)

lemma well_named_reject_each:
  "well_named s \<Longrightarrow> \<forall>(k, cb) \<in> set ps. 1 \<le> promise cb \<and> promise cb \<le> seqId s \<Longrightarrow>
     well_named (reject_each s ps e)"
proof (induction s ps e rule: reject_each.induct)
  case (1 s e)
  then show ?case by simp
next
  case (2 s k p rest e)
  have "well_named (PromiseCallback_reject s p e)"
    using 2 by (auto intro: well_named_reject)
  moreover have "seqId (PromiseCallback_reject s p e) = seqId s"
    by (simp add: PromiseCallback_reject_def)
  ultimately show ?case using 2 by auto
qed

lemma well_named_failAll:
  assumes "well_named s"
  shows "well_named (u_failAllPendingRequest s st err)"
proof -
  have "\<forall>(k, cb) \<in> set (pendingCallbacks s). 1 \<le> promise cb \<and> promise cb \<le> seqId s"
    using assms unfolding well_named_def by auto
  then have "well_named (reject_each s (pendingCallbacks s)
      (SubRequestCancelError (traceId s) st (Some err) None))"
    using assms by (rule well_named_reject_each [rotated])
  then show ?thesis
    unfolding u_failAllPendingRequest_def Let_def well_named_def by simp
qed

lemma well_named_field_updates:
  "well_named s \<Longrightarrow> well_named (s\<lparr> status := st \<rparr>)"
  "well_named s \<Longrightarrow> well_named (s\<lparr> grpcStream := g \<rparr>)"
  "well_named s \<Longrightarrow> well_named (s\<lparr> callbacks := c \<rparr>)"
  "well_named s \<Longrightarrow> well_named (s\<lparr> onMessageCallback := b \<rparr>)"
  "well_named s \<Longrightarrow> well_named (s\<lparr> onSystemEventCallback := b \<rparr>)"
  unfolding well_named_def by simp_all

lemma well_named_send:
  assumes "well_named s"
  shows "well_named (snd (u_sendMessage s m so a))"
proof (cases so)
  case True
  then show ?thesis
    using assms
    by (auto simp: u_sendMessage_def uu_sendMessage_def well_named_field_updates
        split: sum.splits if_splits)
next
  case False
  let ?n = "Suc (seqId s)"
  let ?s3 = "s\<lparr> seqId := ?n,
                 timers := AList.update ?n (requestTimeout s) (timers s),
                 pendingCallbacks :=
                   AList.update ?n \<lparr> promise = ?n, timeoutId = ?n \<rparr> (pendingCallbacks s) \<rparr>"
  have w3: "well_named ?s3"
    using assms set_update_subset [of ?n "requestTimeout s" "timers s"]
      set_update_subset [of ?n "\<lparr> promise = ?n, timeoutId = ?n \<rparr>" "pendingCallbacks s"]
    unfolding well_named_def by (fastforce simp: distinct_update)
  have w4: "well_named (?s3\<lparr> promises := settle ?n out (promises ?s3) \<rparr>)" for out
    using w3 set_settle_subset [of ?n out "promises s"]
    unfolding well_named_def by fastforce
  show ?thesis
    using False w3 w4
    by (auto simp: u_sendMessage_def uu_sendMessage_def Let_def well_named_field_updates
        split: sum.splits if_splits)
qed

lemma well_named_error: "well_named s \<Longrightarrow> well_named (error s e)"
  by (simp add: error_def Let_def well_named_failAll well_named_field_updates)

lemma well_named_forward: "forward s r q t = Inr s' \<Longrightarrow> well_named s \<Longrightarrow> well_named s'"
  by (auto simp: forward_def u_handleSocketRequest_def u_handleLongLinkRequest_def
      u_handleShortLinkRequest_def subReply_def well_named_send
      split: WeChatRequest.splits transport.splits if_splits)

lemma well_named_onServerMessage:
  "well_named s \<Longrightarrow> well_named (u_onServerMessage s f t)"
  by (auto simp: u_onServerMessage_def Let_def well_named_complete well_named_error
      subReply_def well_named_send well_named_field_updates
      dest: well_named_forward split: option.splits Message.splits sum.splits)

lemma well_named_timer: "well_named s \<Longrightarrow> well_named (timer_fires s k)"
proof -
  assume w: "well_named s"
  have "well_named (s\<lparr> timers := AList.delete k (timers s) \<rparr>)"
    using w set_delete_subset [of k "timers s"] unfolding well_named_def by fastforce
  then show ?thesis
    by (auto simp: timer_fires_def w well_named_fail split: option.splits)
qed

lemma well_named_step: "well_named s \<Longrightarrow> well_named (step s ev)"
  by (cases ev)
     (simp_all add: request_def subRequest_def subReplyAndRequest_def subReply_def
        well_named_send well_named_onServerMessage well_named_timer well_named_error
        on_end_def on_error_def complete_def Let_def well_named_failAll
        well_named_field_updates)

lemma well_named_constructor: "well_named (constructor tid opts)"
  by (simp add: well_named_def constructor_def)

lemma well_named_run: "well_named s \<Longrightarrow> well_named (run s evs)"
  unfolding run_def by (induction evs arbitrary: s) (simp_all add: well_named_step)

lemma reachable_well_named: "well_named (run (constructor tid opts) evs)"
  by (simp add: well_named_run well_named_constructor)

lemma well_named_fresh:
  "well_named s \<Longrightarrow> seqId s < k \<Longrightarrow>
     map_of (promises s) k = None \<and> map_of (pendingCallbacks s) k = None \<and> map_of (timers s) k = None"
  unfolding well_named_def by (force simp: map_of_eq_None_iff)

lemma well_named_zero:
  "well_named s \<Longrightarrow> map_of (pendingCallbacks s) 0 = None"
  unfolding well_named_def by (force simp: map_of_eq_None_iff)

subsection \<open>The counter along a run\<close>

lemma seqId_reject [simp]: "seqId (PromiseCallback_reject s p e) = seqId s"
  by (simp add: PromiseCallback_reject_def)

lemma seqId_complete [simp]: "seqId (u_completePendingRequest s a m q) = seqId s"
  by (simp add: u_completePendingRequest_def Let_def PromiseCallback_resolve_def split: option.splits)

lemma seqId_fail [simp]: "seqId (u_failPendingRequest s a e) = seqId s"
  by (simp add: u_failPendingRequest_def Let_def PromiseCallback_reject_def split: option.splits)

lemma seqId_send_only [simp]: "seqId (snd (u_sendMessage s m True a)) = seqId s"
  by (auto simp: u_sendMessage_def uu_sendMessage_def split: sum.splits if_splits)

lemma awaited_send:
  "fst (u_sendMessage s m False a) = Awaiting (Suc (seqId s))"
  "seqId (snd (u_sendMessage s m False a)) = Suc (seqId s)"
  by (auto simp: u_sendMessage_def uu_sendMessage_def Let_def split: sum.splits if_splits)

lemma seqId_error [simp]: "seqId (error s e) = seqId s"
  by (simp add: error_def Let_def)

lemma seqId_forward: "forward s r q t = Inr s' \<Longrightarrow> seqId s' = seqId s"
  by (auto simp: forward_def u_handleSocketRequest_def u_handleLongLinkRequest_def
      u_handleShortLinkRequest_def subReply_def split: WeChatRequest.splits transport.splits if_splits)

lemma seqId_onServerMessage [simp]: "seqId (u_onServerMessage s f t) = seqId s"
  by (auto simp: u_onServerMessage_def Let_def subReply_def
      dest: seqId_forward split: option.splits Message.splits sum.splits)

lemma seqId_step: "seqId (step s ev) = (if awaited ev then Suc (seqId s) else seqId s)"
  by (cases ev)
     (simp_all add: request_def subRequest_def subReplyAndRequest_def subReply_def awaited_send
        on_end_def on_error_def complete_def Let_def timer_fires_def split: option.splits)

lemma handed_out_step:
  "handed_out s ev = (if awaited ev then [Awaiting (Suc (seqId s))] else [])"
  by (cases ev) (simp_all add: request_def subRequest_def subReplyAndRequest_def awaited_send)

lemma upt_shift: "[a ..< a + Suc n] = a # [Suc a ..< Suc a + n]"
  by (simp add: upt_conv_Cons del: upt_Suc)

lemma allocated_from:
  "allocated s evs = map Awaiting [Suc (seqId s) ..< Suc (seqId s) + length (filter awaited evs)] \<and>
   seqId (run s evs) = seqId s + length (filter awaited evs)"
proof (induction evs arbitrary: s)
  case Nil
  then show ?case by (simp add: run_def)
next
  case (Cons ev evs)
  have run_Cons: "run s (ev # evs) = run (step s ev) evs" by (simp add: run_def)
  show ?case
  proof (cases "awaited ev")
    case True
    then show ?thesis
      using Cons [of "step s ev"] upt_shift [of "Suc (seqId s)" "length (filter awaited evs)"]
      by (simp add: run_Cons handed_out_step seqId_step del: upt_Suc)
  next
    case False
    then show ?thesis
      using Cons [of "step s ev"] by (simp add: run_Cons handed_out_step seqId_step)
  qed
qed

lemma requests_from:
  "fst (requests s ms) = map Awaiting [Suc (seqId s) ..< Suc (seqId s) + length ms] \<and>
   (status s = OK \<longrightarrow>
      grpcStream (snd (requests s ms)) =
        grpcStream s @ map request_frame (zip [Suc (seqId s) ..< Suc (seqId s) + length ms] ms))"
proof (induction ms arbitrary: s)
  case Nil
  then show ?case by simp
next
  case (Cons m ms)
  let ?s1 = "snd (request s m)"
  have a: "fst (request s m) = Awaiting (Suc (seqId s))" "seqId ?s1 = Suc (seqId s)"
    "status ?s1 = status s"
    by (simp_all add: request_def subRequest_def awaited_send)
  have w: "status s = OK \<Longrightarrow> grpcStream ?s1 = grpcStream s @ [request_frame (Suc (seqId s), m)]"
    by (simp add: request_def subRequest_def u_sendMessage_def uu_sendMessage_def Let_def
        request_frame_def)
  show ?case
    using Cons [of ?s1] a w upt_shift [of "Suc (seqId s)" "length ms"]
    by (simp add: split_beta Let_def del: upt_Suc)
qed

lemma update_fresh: "k \<notin> fst ` set al \<Longrightarrow> AList.update k v al = al @ [(k, v)]"
  by (induction al) auto

lemma request_registers:
  assumes "well_named s"
  shows "pendingCallbacks (snd (request s m)) =
           pendingCallbacks s @ [(Suc (seqId s), \<lparr> promise = Suc (seqId s), timeoutId = Suc (seqId s) \<rparr>)]"
proof -
  have "map_of (pendingCallbacks s) (Suc (seqId s)) = None"
    using assms well_named_fresh [of s "Suc (seqId s)"] by simp
  then have "Suc (seqId s) \<notin> fst ` set (pendingCallbacks s)"
    by (simp add: map_of_eq_None_iff)
  then have "AList.update (Suc (seqId s)) v (pendingCallbacks s) = pendingCallbacks s @ [(Suc (seqId s), v)]" for v
    by (rule update_fresh)
  then show ?thesis
    by (auto simp: request_def subRequest_def u_sendMessage_def uu_sendMessage_def Let_def)
qed

text \<open>The equations that evaluate the model on a concrete object.\<close>

lemmas ex_defs = ex_client_def ex_ping_def constructor_def request_def subRequest_def
  u_sendMessage_def uu_sendMessage_def Let_def DEFAULT_REQUEST_TIMEOUT_def settle_def
  u_onServerMessage_def getAck_def getSeq_def forward_def error_def u_failAllPendingRequest_def
  PromiseCallback_reject_def on_end_def complete_def on_error_def tid_message_def run_def

subsection \<open>The claims about the multiplexer\<close>

text \<open>
  Claim C3. The status starts at OK. Each of the four transition paths (stream end,
  stream error, \<open>error(e)\<close>, \<open>complete()\<close>) moves an OK object to its own terminal status.
  On an object that is not OK each of the four returns the object unchanged (no promise
  is failed, nothing is called on the stream), and no run of events whatsoever changes
  the status again.
\<close>

theorem status_monotonic:
  "status (constructor tid options) = OK \<and>
   (status s = OK \<longrightarrow>
      status (on_end s) = SERVER_COMPLETE \<and> status (on_error s e) = SERVER_ERROR \<and>
      status (error s e) = CLIENT_ERROR \<and> status (complete s) = CLIENT_COMPLETE) \<and>
   (status s \<noteq> OK \<longrightarrow>
      on_end s = s \<and> on_error s e = s \<and> error s e = s \<and> complete s = s \<and>
      status (run s evs) = status s)"
  by (simp add: constructor_def on_end_def on_error_def error_def complete_def Let_def run_terminal)

theorem status_monotonic_witness:
  "status (error ex_client (Error ''boom'')) = CLIENT_ERROR \<and>
   complete (error ex_client (Error ''boom'')) = error ex_client (Error ''boom'') \<and>
   on_end (error ex_client (Error ''boom'')) = error ex_client (Error ''boom'') \<and>
   status (run (error ex_client (Error ''boom'')) [CallComplete, StreamEnd, CallRequest SystemEventResponse])
     = CLIENT_ERROR"
proof -
  have ok: "status ex_client = OK" by (simp add: ex_defs)
  have off: "status (error ex_client (Error ''boom'')) \<noteq> OK"
    using status_monotonic [of "''t1''" None ex_client "Error ''boom''" "[]"] ok by simp
  show ?thesis
    using status_monotonic [of "''t1''" None ex_client "Error ''boom''" "[]"] ok
      status_monotonic [of "''t1''" None "error ex_client (Error ''boom'')" "Error ''boom''"
        "[CallComplete, StreamEnd, CallRequest SystemEventResponse]"] off
    by simp
qed

text \<open>
  Claim C1, as stated, fails: on an OK object with one pending request, an inbound
  proxied request with an unsupported case leaves the status CLIENT_ERROR, cancels the
  stream and fails the pending request.
\<close>

theorem forwarding_failure_counterexample:
  "status ex_client = OK \<and>
   map_of (pendingCallbacks ex_client) 1 = Some \<lparr> promise = 1, timeoutId = 1 \<rparr> \<and>
   map_of (promises ex_client) 1 = None \<and>
   status (u_onServerMessage ex_client ex_unsupported (Responds [])) = CLIENT_ERROR \<and>
   last (grpcStream (u_onServerMessage ex_client ex_unsupported (Responds []))) = Cancel \<and>
   map_of (promises (u_onServerMessage ex_client ex_unsupported (Responds []))) 1 =
     Some (Rejected (SubRequestCancelError ''t1'' CLIENT_ERROR
       (Some (IOError (Some (Error ''unsupported wechat request case: 0''))
          ''[tid:t1] Exception while forwarding message to wechat'')) None))"
  by (simp add: ex_defs ex_unsupported_def)

text \<open>
  Claim C1, amended. For every inbound frame without ack that carries a proxied request
  whose forwarding raises (the case is unsupported, or the transport raises), the error
  is caught, wrapped in an IOError and given to \<open>error\<close>. If the status is OK this is the
  teardown: the status becomes CLIENT_ERROR, the stream is cancelled, the table is
  emptied and every pending promise that is not settled yet is rejected with a
  SubRequestCancelError of reason CLIENT_ERROR whose cause is the IOError; settled
  promises and promises outside the table are untouched. If the status is not OK nothing
  changes.
\<close>

theorem forwarding_failure_calls_error:
  assumes "header f = Some h" and "getAck h = 0" and "payload f = WeChatRequestPayload r"
    and "(r = REQUEST_NOT_SET \<and> e = Error ''unsupported wechat request case: 0'') \<or>
         (r \<noteq> REQUEST_NOT_SET \<and> t = Raises e)"
  shows "u_onServerMessage s f t =
           error s (IOError (Some e) (tid_message (traceId s) ''Exception while forwarding message to wechat'')) \<and>
         (status s \<noteq> OK \<longrightarrow> u_onServerMessage s f t = s) \<and>
         (status s = OK \<longrightarrow>
            status (u_onServerMessage s f t) = CLIENT_ERROR \<and>
            grpcStream (u_onServerMessage s f t) = grpcStream s @ [Cancel] \<and>
            pendingCallbacks (u_onServerMessage s f t) = [] \<and>
            (\<forall>q. map_of (promises (u_onServerMessage s f t)) q =
               (case map_of (promises s) q of
                  Some v \<Rightarrow> Some v
                | None \<Rightarrow>
                    if q \<in> promise ` snd ` set (pendingCallbacks s)
                    then Some (Rejected (SubRequestCancelError (traceId s) CLIENT_ERROR
                           (Some (IOError (Some e)
                              (tid_message (traceId s) ''Exception while forwarding message to wechat'')))
                           None))
                    else None)))"
proof -
  from assms(4) have fw: "forward s r (getSeq h) t = Inl e"
    by (simp add: forward_raises)
  have eq: "u_onServerMessage s f t =
      error s (IOError (Some e) (tid_message (traceId s) ''Exception while forwarding message to wechat''))"
    using assms(1-3) fw by (simp add: u_onServerMessage_def Let_def)
  show ?thesis
    unfolding eq by (simp add: error_def Let_def failAll_promises)
qed

theorem forwarding_failure_calls_error_witness:
  "u_onServerMessage ex_client ex_unsupported (Responds []) =
     error ex_client (IOError (Some (Error ''unsupported wechat request case: 0''))
        (tid_message ''t1'' ''Exception while forwarding message to wechat'')) \<and>
   status (u_onServerMessage ex_client ex_unsupported (Responds [])) = CLIENT_ERROR \<and>
   grpcStream (u_onServerMessage ex_client ex_unsupported (Responds [])) =
     grpcStream ex_client @ [Cancel] \<and>
   pendingCallbacks (u_onServerMessage ex_client ex_unsupported (Responds [])) = []"
proof -
  have h1: "header ex_unsupported = Some \<lparr> hdr_seq = Some 7, hdr_ack = None \<rparr>"
    and h2: "getAck \<lparr> hdr_seq = Some 7, hdr_ack = None \<rparr> = 0"
    and h3: "payload ex_unsupported = WeChatRequestPayload REQUEST_NOT_SET"
    by (simp_all add: ex_unsupported_def getAck_def)
  have h4: "(REQUEST_NOT_SET = REQUEST_NOT_SET \<and>
              Error ''unsupported wechat request case: 0'' = Error ''unsupported wechat request case: 0'') \<or>
            (REQUEST_NOT_SET \<noteq> REQUEST_NOT_SET \<and> Responds [] = Raises (Error ''unsupported wechat request case: 0''))"
    by simp
  have ok: "status ex_client = OK" and tid: "traceId ex_client = ''t1''" by (simp_all add: ex_defs)
  show ?thesis
    using forwarding_failure_calls_error [OF h1 h2 h3 h4, of ex_client] ok tid
    by auto
qed

text \<open>
  Claim C2, as stated, fails for the status SERVER_COMPLETE: after the stream has ended,
  \<open>sendOnly\<close> is fulfilled and writes its frame, and \<open>request\<close> writes its frame and
  leaves its promise waiting.
\<close>

theorem closed_channel_counterexample:
  "status ex_half_closed = SERVER_COMPLETE \<and>
   fst (subRequest ex_half_closed ex_ping True) = Fulfilled \<and>
   grpcStream (snd (subRequest ex_half_closed ex_ping True)) =
     [Write \<lparr> header = Some \<lparr> hdr_seq = None, hdr_ack = None \<rparr>, payload = ex_ping \<rparr>] \<and>
   fst (request ex_half_closed ex_ping) = Awaiting 1 \<and>
   grpcStream (snd (request ex_half_closed ex_ping)) =
     [Write \<lparr> header = Some \<lparr> hdr_seq = Some 1, hdr_ack = None \<rparr>, payload = ex_ping \<rparr>] \<and>
   map_of (promises (snd (request ex_half_closed ex_ping))) 1 = None"
  by (simp add: ex_defs ex_half_closed_def)

text \<open>
  Claim C2, amended. In every state that a run can reach: if the status is SERVER_ERROR,
  CLIENT_ERROR or CLIENT_COMPLETE, then \<open>sendOnly\<close> fails with the SubRequestCancelError
  that carries this status as its reason and leaves the object as it is, and \<open>request\<close>
  returns a promise that is rejected with the same error, and writes no frame. If the
  status is SERVER_COMPLETE (or OK) the guard lets both through: the frame is written,
  and the promise of \<open>request\<close> waits.
\<close>

theorem closed_channel_send_fails:
  assumes "s = run (constructor tid opts) evs"
  shows
    "(status s = SERVER_ERROR \<or> status s = CLIENT_ERROR \<or> status s = CLIENT_COMPLETE \<longrightarrow>
        subRequest s m True =
          (Thrown (SubRequestCancelError (traceId s) (status s) None
             (Some ''can not send message while stream status is not illegal'')), s) \<and>
        fst (request s m) = Awaiting (seqId s + 1) \<and>
        map_of (promises (snd (request s m))) (seqId s + 1) =
          Some (Rejected (SubRequestCancelError (traceId s) (status s) None
             (Some ''can not send message while stream status is not illegal''))) \<and>
        grpcStream (snd (request s m)) = grpcStream s) \<and>
     (status s = SERVER_COMPLETE \<or> status s = OK \<longrightarrow>
        subRequest s m True =
          (Fulfilled, s\<lparr> grpcStream := grpcStream s @
             [Write \<lparr> header = Some \<lparr> hdr_seq = None, hdr_ack = None \<rparr>, payload = m \<rparr>] \<rparr>) \<and>
        fst (request s m) = Awaiting (seqId s + 1) \<and>
        map_of (promises (snd (request s m))) (seqId s + 1) = None \<and>
        grpcStream (snd (request s m)) = grpcStream s @
          [Write \<lparr> header = Some \<lparr> hdr_seq = Some (seqId s + 1), hdr_ack = None \<rparr>, payload = m \<rparr>])"
proof -
  have "well_named s" using assms by (simp add: reachable_well_named)
  then have fresh: "map_of (promises s) (Suc (seqId s)) = None"
    using well_named_fresh [of s "Suc (seqId s)"] by simp
  show ?thesis
    using fresh
    by (auto simp: subRequest_def request_def u_sendMessage_def uu_sendMessage_def Let_def
        settle_map_of)
qed

theorem closed_channel_send_fails_witness:
  "subRequest ex_failed ex_ping True =
     (Thrown (SubRequestCancelError ''t1'' CLIENT_ERROR None
        (Some ''can not send message while stream status is not illegal'')), ex_failed) \<and>
   map_of (promises (snd (request ex_failed ex_ping))) 1 =
     Some (Rejected (SubRequestCancelError ''t1'' CLIENT_ERROR None
        (Some ''can not send message while stream status is not illegal''))) \<and>
   grpcStream (snd (request ex_failed ex_ping)) = [Cancel] \<and>
   grpcStream (snd (request ex_half_closed ex_ping)) =
     [Write \<lparr> header = Some \<lparr> hdr_seq = Some 1, hdr_ack = None \<rparr>, payload = ex_ping \<rparr>]"
proof -
  have r1: "ex_failed = run (constructor ''t1'' None) [CallError (Error ''boom'')]"
    by (simp add: ex_failed_def run_def)
  have r2: "ex_half_closed = run (constructor ''t1'' None) [StreamEnd]"
    by (simp add: ex_half_closed_def run_def)
  have f: "status ex_failed = CLIENT_ERROR" "traceId ex_failed = ''t1''" "seqId ex_failed = 0"
    "grpcStream ex_failed = [Cancel]"
    by (simp_all add: ex_defs ex_failed_def)
  have h: "status ex_half_closed = SERVER_COMPLETE" "seqId ex_half_closed = 0"
    "grpcStream ex_half_closed = []"
    by (simp_all add: ex_defs ex_half_closed_def)
  show ?thesis
    using closed_channel_send_fails [OF r1, of ex_ping] closed_channel_send_fails [OF r2, of ex_ping] f h
    by simp
qed

text \<open>
  Claim C4. Along every run of a fresh object, whatever other events lie in between, the
  awaited calls (\<open>request\<close>, \<open>subReplyAndRequest\<close>) get the numbers 1, 2, 3, ... in the
  order of the calls, and the counter is the number of awaited calls so far: the numbers
  are distinct, increasing from 1 and never given twice. A list of requests on a fresh
  object writes frames with the sequence numbers 1, 2, ... in order. In every reachable
  state the keys of the pending table are distinct and lie between 1 and the counter, and
  the next request adds one entry, under the next number, behind the entries that are
  there.
\<close>

theorem sequence_numbers_increase:
  "allocated (constructor tid opts) evs = map Awaiting [1 ..< Suc (length (filter awaited evs))] \<and>
   seqId (run (constructor tid opts) evs) = length (filter awaited evs) \<and>
   fst (requests (constructor tid opts) ms) = map Awaiting [1 ..< Suc (length ms)] \<and>
   grpcStream (snd (requests (constructor tid opts) ms)) =
     map request_frame (zip [1 ..< Suc (length ms)] ms) \<and>
   distinct (map fst (pendingCallbacks (run (constructor tid opts) evs))) \<and>
   (\<forall>k \<in> fst ` set (pendingCallbacks (run (constructor tid opts) evs)).
      1 \<le> k \<and> k \<le> seqId (run (constructor tid opts) evs)) \<and>
   pendingCallbacks (snd (request (run (constructor tid opts) evs) m)) =
     pendingCallbacks (run (constructor tid opts) evs) @
       [(Suc (seqId (run (constructor tid opts) evs)),
         \<lparr> promise = Suc (seqId (run (constructor tid opts) evs)),
           timeoutId = Suc (seqId (run (constructor tid opts) evs)) \<rparr>)]"
proof -
  let ?c = "constructor tid opts"
  have c: "seqId ?c = 0" "status ?c = OK" "grpcStream ?c = []"
    by (simp_all add: constructor_def)
  have w: "well_named (run ?c evs)" by (rule reachable_well_named)
  have a: "allocated ?c evs = map Awaiting [1 ..< Suc (length (filter awaited evs))]"
    "seqId (run ?c evs) = length (filter awaited evs)"
    using allocated_from [of ?c evs] c by simp_all
  have r: "fst (requests ?c ms) = map Awaiting [1 ..< Suc (length ms)]"
    "grpcStream (snd (requests ?c ms)) = map request_frame (zip [1 ..< Suc (length ms)] ms)"
    using requests_from [of ?c ms] c by simp_all
  have d: "distinct (map fst (pendingCallbacks (run ?c evs)))"
    "\<forall>k \<in> fst ` set (pendingCallbacks (run ?c evs)). 1 \<le> k \<and> k \<le> seqId (run ?c evs)"
    using w unfolding well_named_def by auto
  show ?thesis
    using a r d request_registers [OF w, of m] by simp
qed

theorem sequence_numbers_increase_witness:
  "allocated (constructor ''t1'' None) ex_events = map Awaiting [1, 2, 3] \<and>
   seqId (run (constructor ''t1'' None) ex_events) = 3 \<and>
   fst (requests (constructor ''t1'' None) [ex_ping, SystemEventResponse]) = map Awaiting [1, 2] \<and>
   grpcStream (snd (requests (constructor ''t1'' None) [ex_ping, SystemEventResponse])) =
     map request_frame (zip [1, 2] [ex_ping, SystemEventResponse]) \<and>
   distinct (map fst (pendingCallbacks (run (constructor ''t1'' None) ex_events)))"
proof -
  have n: "length (filter awaited ex_events) = 3"
    by (simp add: ex_events_def)
  have a: "[1 ..< Suc 3] = [1, 2, 3]"
    and b: "[1 ..< Suc (length [ex_ping, SystemEventResponse])] = [1, 2]"
    by (simp_all add: upt_rec)
  show ?thesis
    using sequence_numbers_increase
      [of "''t1''" None ex_events "[ex_ping, SystemEventResponse]" ex_ping]
    unfolding n a b by blast
qed

lemma delete_absent: "map_of al k = None \<Longrightarrow> AList.delete k al = al"
  by (simp add: map_of_eq_None_iff)

lemma complete_absent:
  "map_of (pendingCallbacks s) k = None \<Longrightarrow> u_completePendingRequest s k m q = s"
  by (simp add: u_completePendingRequest_def Let_def delete_absent)

lemma complete_present:
  "map_of (pendingCallbacks s) k = Some cb \<Longrightarrow>
     u_completePendingRequest s k m q =
       s\<lparr> pendingCallbacks := AList.delete k (pendingCallbacks s),
          promises := settle (promise cb) (Resolved \<lparr> wrap_payload = m, wrap_ack = q \<rparr>) (promises s),
          timers := AList.delete (timeoutId cb) (timers s) \<rparr>"
  by (simp add: u_completePendingRequest_def Let_def PromiseCallback_resolve_def)

lemma complete_table:
  "pendingCallbacks (u_completePendingRequest s k m q) = AList.delete k (pendingCallbacks s)"
  by (simp add: u_completePendingRequest_def Let_def PromiseCallback_resolve_def split: option.splits)

lemma ack_routes_to_table:
  "header f = Some h \<Longrightarrow> getAck h \<noteq> 0 \<Longrightarrow>
     u_onServerMessage s f t = u_completePendingRequest s (getAck h) (payload f) (getSeq h)"
  by (simp add: u_onServerMessage_def Let_def)

text \<open>
  Claim C5. Let an inbound frame carry the ack \<open>k\<close> (not 0). If the table has an entry
  under \<open>k\<close>, the frame removes this entry, resolves its promise with the frame's payload
  and the frame's seq (0 when the frame has none) and clears its timer, all in one step,
  and changes nothing else: a promise that was waiting is now resolved with that value,
  every other promise and every other entry of the table is as before. If the table has
  no entry under \<open>k\<close>, the object is unchanged. In both cases the table has no entry
  under \<open>k\<close> afterwards, so a second frame with ack \<open>k\<close> changes nothing.
\<close>

theorem reply_resolves_pending:
  assumes "header f = Some h" and "getAck h = k" and "k \<noteq> 0"
  shows
    "(\<forall>cb. map_of (pendingCallbacks s) k = Some cb \<longrightarrow>
        u_onServerMessage s f t =
          s\<lparr> pendingCallbacks := AList.delete k (pendingCallbacks s),
             promises := settle (promise cb)
               (Resolved \<lparr> wrap_payload = payload f, wrap_ack = getSeq h \<rparr>) (promises s),
             timers := AList.delete (timeoutId cb) (timers s) \<rparr> \<and>
        (map_of (promises s) (promise cb) = None \<longrightarrow>
           map_of (promises (u_onServerMessage s f t)) (promise cb) =
             Some (Resolved \<lparr> wrap_payload = payload f, wrap_ack = getSeq h \<rparr>)) \<and>
        (\<forall>q. q \<noteq> promise cb \<longrightarrow>
           map_of (promises (u_onServerMessage s f t)) q = map_of (promises s) q)) \<and>
     (map_of (pendingCallbacks s) k = None \<longrightarrow> u_onServerMessage s f t = s) \<and>
     map_of (pendingCallbacks (u_onServerMessage s f t)) k = None \<and>
     (\<forall>k'. k' \<noteq> k \<longrightarrow>
        map_of (pendingCallbacks (u_onServerMessage s f t)) k' = map_of (pendingCallbacks s) k') \<and>
     (\<forall>f' h' t'. header f' = Some h' \<and> getAck h' = k \<longrightarrow>
        u_onServerMessage (u_onServerMessage s f t) f' t' = u_onServerMessage s f t)"
proof -
  have eq: "u_onServerMessage s f t = u_completePendingRequest s k (payload f) (getSeq h)"
    using assms ack_routes_to_table [of f h s t] by simp
  have gone: "map_of (pendingCallbacks (u_onServerMessage s f t)) k = None"
    unfolding eq complete_table by (simp add: delete_conv')
  have dup: "u_onServerMessage (u_onServerMessage s f t) f' t' = u_onServerMessage s f t"
    if "header f' = Some h'" and "getAck h' = k" for f' h' t'
    using that assms(3) gone ack_routes_to_table [of f' h' "u_onServerMessage s f t" t']
    by (simp add: complete_absent)
  show ?thesis
    using gone dup unfolding eq
    by (auto simp: complete_present complete_absent settle_map_of complete_table
        split: option.splits)
qed

theorem reply_resolves_pending_witness:
  "map_of (pendingCallbacks ex_client) 1 = Some \<lparr> promise = 1, timeoutId = 1 \<rparr> \<and>
   map_of (promises ex_client) 1 = None \<and>
   map_of (promises (u_onServerMessage ex_client ex_reply (Responds []))) 1 =
     Some (Resolved \<lparr> wrap_payload = OtherPayload ''pong'' [1, 2], wrap_ack = 5 \<rparr>) \<and>
   map_of (pendingCallbacks (u_onServerMessage ex_client ex_reply (Responds []))) 1 = None \<and>
   u_onServerMessage (u_onServerMessage ex_client ex_reply (Responds [])) ex_reply (Responds []) =
     u_onServerMessage ex_client ex_reply (Responds [])"
proof -
  have h: "header ex_reply = Some \<lparr> hdr_seq = Some 5, hdr_ack = Some 1 \<rparr>"
    and a: "getAck \<lparr> hdr_seq = Some 5, hdr_ack = Some 1 \<rparr> = 1"
    and q: "getSeq \<lparr> hdr_seq = Some 5, hdr_ack = Some 1 \<rparr> = 5"
    and p: "payload ex_reply = OtherPayload ''pong'' [1, 2]"
    by (simp_all add: ex_reply_def getAck_def getSeq_def)
  have e: "map_of (pendingCallbacks ex_client) 1 = Some \<lparr> promise = 1, timeoutId = 1 \<rparr>"
    "map_of (promises ex_client) 1 = None"
    by (simp_all add: ex_defs)
  have nz: "(1::nat) \<noteq> 0" by simp
  note t = reply_resolves_pending [OF h a nz, of ex_client "Responds []"]
  show ?thesis
    using t e h a unfolding q p by auto
qed


lemma requestTimeout_send [simp]: "requestTimeout (snd (u_sendMessage s m so a)) = requestTimeout s"
  by (auto simp: u_sendMessage_def uu_sendMessage_def Let_def split: sum.splits if_splits)

lemma requestTimeout_complete [simp]: "requestTimeout (u_completePendingRequest s a m q) = requestTimeout s"
  by (simp add: u_completePendingRequest_def Let_def PromiseCallback_resolve_def split: option.splits)

lemma requestTimeout_fail [simp]: "requestTimeout (u_failPendingRequest s a e) = requestTimeout s"
  by (simp add: u_failPendingRequest_def Let_def PromiseCallback_reject_def split: option.splits)

lemma requestTimeout_error [simp]: "requestTimeout (error s e) = requestTimeout s"
  by (simp add: error_def Let_def)

lemma requestTimeout_forward: "forward s r q t = Inr s' \<Longrightarrow> requestTimeout s' = requestTimeout s"
  by (auto simp: forward_def u_handleSocketRequest_def u_handleLongLinkRequest_def
      u_handleShortLinkRequest_def subReply_def split: WeChatRequest.splits transport.splits if_splits)

lemma requestTimeout_onServerMessage [simp]:
  "requestTimeout (u_onServerMessage s f t) = requestTimeout s"
  by (auto simp: u_onServerMessage_def Let_def subReply_def
      dest: requestTimeout_forward split: option.splits Message.splits sum.splits)

lemma requestTimeout_step: "requestTimeout (step s ev) = requestTimeout s"
  by (cases ev)
     (simp_all add: request_def subRequest_def subReplyAndRequest_def subReply_def
        on_end_def on_error_def complete_def Let_def timer_fires_def split: option.splits)

lemma requestTimeout_run: "requestTimeout (run s evs) = requestTimeout s"
  unfolding run_def by (induction evs arbitrary: s) (simp_all add: requestTimeout_step)

lemma fail_table:
  "pendingCallbacks (u_failPendingRequest s k e) = AList.delete k (pendingCallbacks s)"
  by (simp add: u_failPendingRequest_def Let_def PromiseCallback_reject_def split: option.splits)

lemma fail_present:
  "map_of (pendingCallbacks s) k = Some cb \<Longrightarrow>
     u_failPendingRequest s k e =
       s\<lparr> pendingCallbacks := AList.delete k (pendingCallbacks s),
          promises := settle (promise cb) (Rejected e) (promises s),
          timers := AList.delete (timeoutId cb) (timers s) \<rparr>"
  by (simp add: u_failPendingRequest_def Let_def PromiseCallback_reject_def)

lemma request_arms:
  assumes "well_named s" and "status s = OK \<or> status s = SERVER_COMPLETE"
  shows "map_of (pendingCallbacks (snd (request s m))) (Suc (seqId s)) =
           Some \<lparr> promise = Suc (seqId s), timeoutId = Suc (seqId s) \<rparr> \<and>
         map_of (timers (snd (request s m))) (Suc (seqId s)) = Some (requestTimeout s) \<and>
         map_of (promises (snd (request s m))) (Suc (seqId s)) = None"
  using assms well_named_fresh [of s "Suc (seqId s)"]
  by (auto simp: request_def subRequest_def u_sendMessage_def uu_sendMessage_def Let_def
      update_conv')

text \<open>
  Claim C6. When the timer of the request registered under \<open>k\<close> fires while the entry
  is in the table and its call is still waiting, the promise of that call is rejected
  with the IOError "subRequest timeout", the table has no entry under \<open>k\<close> afterwards,
  every other entry and every other promise is as before, and nothing is called on the
  stream. A request sent in a reachable state whose status lets frames through is in
  exactly this situation: its entry is registered under the new number, its promise is
  waiting, and its timer is armed with the delay \<open>requestTimeout\<close>, which is fixed at
  construction: 60000 ms by default, the option's value when one greater than 0 is given.
\<close>

theorem timeout_fails_only_its_request:
  "(map_of (pendingCallbacks s) k = Some cb \<and> map_of (timers s) k = Some d \<and>
    map_of (promises s) (promise cb) = None \<longrightarrow>
      map_of (promises (timer_fires s k)) (promise cb) =
        Some (Rejected (IOError None (tid_message (traceId s) ''subRequest timeout''))) \<and>
      map_of (pendingCallbacks (timer_fires s k)) k = None \<and>
      (\<forall>k'. k' \<noteq> k \<longrightarrow>
         map_of (pendingCallbacks (timer_fires s k)) k' = map_of (pendingCallbacks s) k') \<and>
      (\<forall>q. q \<noteq> promise cb \<longrightarrow>
         map_of (promises (timer_fires s k)) q = map_of (promises s) q) \<and>
      grpcStream (timer_fires s k) = grpcStream s \<and>
      status (timer_fires s k) = status s) \<and>
   (s0 = run (constructor tid opts) evs \<and> (status s0 = OK \<or> status s0 = SERVER_COMPLETE) \<longrightarrow>
      fst (request s0 m) = Awaiting (Suc (seqId s0)) \<and>
      map_of (pendingCallbacks (snd (request s0 m))) (Suc (seqId s0)) =
        Some \<lparr> promise = Suc (seqId s0), timeoutId = Suc (seqId s0) \<rparr> \<and>
      map_of (timers (snd (request s0 m))) (Suc (seqId s0)) = Some (requestTimeout s0) \<and>
      map_of (promises (snd (request s0 m))) (Suc (seqId s0)) = None) \<and>
   requestTimeout (run (constructor tid opts) evs) = requestTimeout (constructor tid opts) \<and>
   requestTimeout (constructor tid None) = 60000 \<and>
   requestTimeout (constructor tid
     (Some \<lparr> opt_requestTimeout = None, opt_idempotentId = idem \<rparr>)) = 60000 \<and>
   (0 < ms \<longrightarrow>
      requestTimeout (constructor tid
        (Some \<lparr> opt_requestTimeout = Some ms, opt_idempotentId = idem \<rparr>)) = ms)"
proof -
  have fire: "timer_fires s k =
      s\<lparr> pendingCallbacks := AList.delete k (pendingCallbacks s),
         promises := settle (promise cb)
           (Rejected (IOError None (tid_message (traceId s) ''subRequest timeout''))) (promises s),
         timers := AList.delete (timeoutId cb) (AList.delete k (timers s)) \<rparr>"
    if "map_of (pendingCallbacks s) k = Some cb" and "map_of (timers s) k = Some d"
    using that by (simp add: timer_fires_def fail_present)
  have part1: "map_of (pendingCallbacks s) k = Some cb \<and> map_of (timers s) k = Some d \<and>
    map_of (promises s) (promise cb) = None \<longrightarrow>
      map_of (promises (timer_fires s k)) (promise cb) =
        Some (Rejected (IOError None (tid_message (traceId s) ''subRequest timeout''))) \<and>
      map_of (pendingCallbacks (timer_fires s k)) k = None \<and>
      (\<forall>k'. k' \<noteq> k \<longrightarrow>
         map_of (pendingCallbacks (timer_fires s k)) k' = map_of (pendingCallbacks s) k') \<and>
      (\<forall>q. q \<noteq> promise cb \<longrightarrow>
         map_of (promises (timer_fires s k)) q = map_of (promises s) q) \<and>
      grpcStream (timer_fires s k) = grpcStream s \<and>
      status (timer_fires s k) = status s"
    using fire by (auto simp: settle_map_of delete_conv' split: option.splits)
  have part2: "s0 = run (constructor tid opts) evs \<and> (status s0 = OK \<or> status s0 = SERVER_COMPLETE) \<longrightarrow>
      fst (request s0 m) = Awaiting (Suc (seqId s0)) \<and>
      map_of (pendingCallbacks (snd (request s0 m))) (Suc (seqId s0)) =
        Some \<lparr> promise = Suc (seqId s0), timeoutId = Suc (seqId s0) \<rparr> \<and>
      map_of (timers (snd (request s0 m))) (Suc (seqId s0)) = Some (requestTimeout s0) \<and>
      map_of (promises (snd (request s0 m))) (Suc (seqId s0)) = None"
    using request_arms [of s0 m] reachable_well_named [of tid opts evs]
    by (auto simp: request_def subRequest_def awaited_send)
  have part3: "requestTimeout (run (constructor tid opts) evs) = requestTimeout (constructor tid opts)"
    by (rule requestTimeout_run)
  show ?thesis
    using part1 part2 part3
    by (simp add: constructor_def DEFAULT_REQUEST_TIMEOUT_def)
qed


theorem timeout_fails_only_its_request_witness:
  "map_of (promises (timer_fires ex_two 1)) 1 =
     Some (Rejected (IOError None (tid_message ''t1'' ''subRequest timeout''))) \<and>
   map_of (pendingCallbacks (timer_fires ex_two 1)) 1 = None \<and>
   map_of (pendingCallbacks (timer_fires ex_two 1)) 2 = Some \<lparr> promise = 2, timeoutId = 2 \<rparr> \<and>
   map_of (promises (timer_fires ex_two 1)) 2 = None \<and>
   map_of (timers (snd (request (constructor ''t1'' None) ex_ping))) 1 = Some 60000 \<and>
   requestTimeout (constructor ''t1''
     (Some \<lparr> opt_requestTimeout = Some 5000, opt_idempotentId = None \<rparr>)) = 5000"
proof -
  have e: "map_of (pendingCallbacks ex_two) 1 = Some \<lparr> promise = 1, timeoutId = 1 \<rparr>"
    "map_of (pendingCallbacks ex_two) 2 = Some \<lparr> promise = 2, timeoutId = 2 \<rparr>"
    "map_of (timers ex_two) 1 = Some 60000"
    "map_of (promises ex_two) 1 = None" "map_of (promises ex_two) 2 = None"
    "traceId ex_two = ''t1''"
    by (simp_all add: ex_two_def ex_defs)
  have c: "constructor ''t1'' None = run (constructor ''t1'' None) []"
    "status (constructor ''t1'' None) = OK" "seqId (constructor ''t1'' None) = 0"
    "requestTimeout (constructor ''t1'' None) = 60000"
    by (simp_all add: run_def constructor_def DEFAULT_REQUEST_TIMEOUT_def)
  have p: "(0::nat) < 5000" "(2::nat) \<noteq> 1" by simp_all
  show ?thesis
    using timeout_fails_only_its_request
      [of ex_two 1 "\<lparr> promise = 1, timeoutId = 1 \<rparr>" 60000 "constructor ''t1'' None"
         "''t1''" None "[]" ex_ping None 5000] e c p
    by auto
qed

lemma table_send_only [simp]:
  "promises (snd (u_sendMessage s m True a)) = promises s"
  "pendingCallbacks (snd (u_sendMessage s m True a)) = pendingCallbacks s"
  by (auto simp: u_sendMessage_def uu_sendMessage_def split: sum.splits if_splits)

lemma forward_keeps_table:
  "forward s r q t = Inr s' \<Longrightarrow> promises s' = promises s \<and> pendingCallbacks s' = pendingCallbacks s"
  by (auto simp: forward_def u_handleSocketRequest_def u_handleLongLinkRequest_def
      u_handleShortLinkRequest_def subReply_def split: WeChatRequest.splits transport.splits if_splits)

lemma error_resolves_nothing:
  "map_of (promises (error s e)) q = Some (Resolved r) \<Longrightarrow> map_of (promises s) q = Some (Resolved r)"
  by (auto simp: error_def Let_def failAll_promises split: if_splits option.splits)

lemma error_table: "pendingCallbacks (error s e) = pendingCallbacks s \<or> pendingCallbacks (error s e) = []"
  by (simp add: error_def Let_def)

lemma new_work_resolves_nothing:
  assumes "header f = Some h" and "getAck h = 0"
    and "map_of (promises (u_onServerMessage s f t)) q = Some (Resolved r)"
  shows "map_of (promises s) q = Some (Resolved r)"
  using assms
  by (auto simp: u_onServerMessage_def Let_def subReply_def
      dest: forward_keeps_table error_resolves_nothing
      split: Message.splits sum.splits if_splits)

lemma new_work_table:
  assumes "header f = Some h" and "getAck h = 0"
  shows "pendingCallbacks (u_onServerMessage s f t) = pendingCallbacks s \<or>
         pendingCallbacks (u_onServerMessage s f t) = []"
  using assms error_table
  by (auto simp: u_onServerMessage_def Let_def subReply_def
      dest: forward_keeps_table split: Message.splits sum.splits if_splits)

lemma subReply_effect:
  "subReply s q m =
     (if status s = OK \<or> status s = SERVER_COMPLETE
      then s\<lparr> grpcStream := grpcStream s @
             [Write \<lparr> header = Some \<lparr> hdr_seq = None, hdr_ack = setField (Some q) \<rparr>,
                      payload = m \<rparr>] \<rparr>
      else s)"
  by (auto simp: subReply_def u_sendMessage_def uu_sendMessage_def)

text \<open>
  Claim C10. A frame whose ack reads as non-zero is handed to the pending table (and to
  nothing else). A frame whose ack reads as 0 (absent, or set to 0) is new work: a
  proxied request is forwarded (and the error of a failed forwarding given to \<open>error\<close>), a
  system event is answered with an empty reply under its seq and given to the system
  event callback when one is set, any other payload is given to the message callback
  when one is set. Forwarding writes the reply of the long link (outside init mode) and
  of the short link under the seq of the frame, writes nothing for a socket request or
  an init request, and raises for a failing transport and for an unsupported case; a
  reply is one frame with that ack and no seq, written when the status lets frames
  through. Such a frame resolves no promise, and leaves the table as it is unless the
  teardown after a failed forwarding empties it. In every reachable state the table has
  no entry under 0, and a frame whose ack is the key of an entry of the table is always
  handed to the table under that key: no reply to a locally issued request is taken for
  new work.
\<close>

theorem zero_ack_is_new_work:
  assumes "header f = Some h"
  shows
    "(getAck h \<noteq> 0 \<longrightarrow>
        u_onServerMessage s f t = u_completePendingRequest s (getAck h) (payload f) (getSeq h)) \<and>
     (getAck h = 0 \<longrightarrow>
        (\<forall>r. payload f = WeChatRequestPayload r \<longrightarrow>
           u_onServerMessage s f t =
             (case forward s r (getSeq h) t of
                Inr s' \<Rightarrow> s'
              | Inl e \<Rightarrow>
                  error s (IOError (Some e)
                    (tid_message (traceId s) ''Exception while forwarding message to wechat'')))) \<and>
        (\<forall>ev. payload f = SystemEventRequestPayload ev \<longrightarrow>
           u_onServerMessage s f t =
             (let s1 = subReply s (getSeq h) SystemEventResponse in
              if onSystemEventCallback s
              then s1\<lparr> callbacks := callbacks s @ [OnSystemEvent ev] \<rparr>
              else s1)) \<and>
        ((\<forall>r. payload f \<noteq> WeChatRequestPayload r) \<and>
         (\<forall>ev. payload f \<noteq> SystemEventRequestPayload ev) \<longrightarrow>
           u_onServerMessage s f t =
             (if onMessageCallback s
              then s\<lparr> callbacks := callbacks s @ [OnMessage f] \<rparr>
              else s)) \<and>
        (\<forall>q r. map_of (promises (u_onServerMessage s f t)) q = Some (Resolved r) \<longrightarrow>
           map_of (promises s) q = Some (Resolved r)) \<and>
        (pendingCallbacks (u_onServerMessage s f t) = pendingCallbacks s \<or>
         pendingCallbacks (u_onServerMessage s f t) = [])) \<and>
     forward s (SOCKETREQUEST host pl) k (Responds d) = Inr s \<and>
     forward s (LONGLINKREQUEST True lseq pl) k (Responds d) = Inr s \<and>
     forward s (LONGLINKREQUEST False lseq pl) k (Responds d) =
       Inr (subReply s k (WeChatResponsePayload (LongLinkResponse d))) \<and>
     forward s (SHORTLINKREQUEST host port path pl) k (Responds d) =
       Inr (subReply s k (WeChatResponsePayload (ShortLinkResponse d))) \<and>
     forward s (SOCKETREQUEST host pl) k (Raises e) = Inl e \<and>
     forward s (LONGLINKREQUEST im lseq pl) k (Raises e) = Inl e \<and>
     forward s (SHORTLINKREQUEST host port path pl) k (Raises e) = Inl e \<and>
     forward s REQUEST_NOT_SET k t = Inl (Error ''unsupported wechat request case: 0'') \<and>
     subReply s k m =
       (if status s = OK \<or> status s = SERVER_COMPLETE
        then s\<lparr> grpcStream := grpcStream s @
               [Write \<lparr> header = Some \<lparr> hdr_seq = None, hdr_ack = setField (Some k) \<rparr>,
                        payload = m \<rparr>] \<rparr>
        else s) \<and>
     map_of (pendingCallbacks (run (constructor tid opts) evs)) 0 = None \<and>
     (\<forall>k cb. map_of (pendingCallbacks (run (constructor tid opts) evs)) k = Some cb \<and>
        hdr_ack h = Some k \<longrightarrow>
          k \<noteq> 0 \<and>
          u_onServerMessage (run (constructor tid opts) evs) f t =
            u_completePendingRequest (run (constructor tid opts) evs) k (payload f) (getSeq h))"
proof -
  let ?s = "run (constructor tid opts) evs"
  have zero: "map_of (pendingCallbacks ?s) 0 = None"
    using reachable_well_named [of tid opts evs] by (rule well_named_zero)
  have genuine: "k \<noteq> 0 \<and> u_onServerMessage ?s f t = u_completePendingRequest ?s k (payload f) (getSeq h)"
    if "map_of (pendingCallbacks ?s) k = Some cb" and "hdr_ack h = Some k" for k cb
  proof -
    have "k \<noteq> 0" using that(1) zero by (cases k) simp_all
    moreover have "getAck h = k" using that(2) by (simp add: getAck_def)
    ultimately show ?thesis using ack_routes_to_table [OF assms, of ?s t] by simp
  qed
  have wechat: "u_onServerMessage s f t =
      (case forward s r (getSeq h) t of
         Inr s' \<Rightarrow> s'
       | Inl e \<Rightarrow>
           error s (IOError (Some e)
             (tid_message (traceId s) ''Exception while forwarding message to wechat'')))"
    if "getAck h = 0" and "payload f = WeChatRequestPayload r" for r
    using that assms by (simp add: u_onServerMessage_def Let_def split: sum.splits)
  have sysev: "u_onServerMessage s f t =
      (let s1 = subReply s (getSeq h) SystemEventResponse in
       if onSystemEventCallback s
       then s1\<lparr> callbacks := callbacks s @ [OnSystemEvent ev] \<rparr>
       else s1)"
    if "getAck h = 0" and "payload f = SystemEventRequestPayload ev" for ev
    using that assms by (simp add: u_onServerMessage_def Let_def subReply_effect)
  have other: "u_onServerMessage s f t =
      (if onMessageCallback s then s\<lparr> callbacks := callbacks s @ [OnMessage f] \<rparr> else s)"
    if "getAck h = 0" and "\<forall>r. payload f \<noteq> WeChatRequestPayload r"
      and "\<forall>ev. payload f \<noteq> SystemEventRequestPayload ev"
    using that assms by (cases "payload f") (simp_all add: u_onServerMessage_def Let_def)
  have fw: "forward s (SOCKETREQUEST host pl) k (Responds d) = Inr s"
    "forward s (LONGLINKREQUEST True lseq pl) k (Responds d) = Inr s"
    "forward s (LONGLINKREQUEST False lseq pl) k (Responds d) =
       Inr (subReply s k (WeChatResponsePayload (LongLinkResponse d)))"
    "forward s (SHORTLINKREQUEST host port path pl) k (Responds d) =
       Inr (subReply s k (WeChatResponsePayload (ShortLinkResponse d)))"
    "forward s (SOCKETREQUEST host pl) k (Raises e) = Inl e"
    "forward s (LONGLINKREQUEST im lseq pl) k (Raises e) = Inl e"
    "forward s (SHORTLINKREQUEST host port path pl) k (Raises e) = Inl e"
    "forward s REQUEST_NOT_SET k t = Inl (Error ''unsupported wechat request case: 0'')"
    by (simp_all add: forward_def u_handleSocketRequest_def u_handleLongLinkRequest_def
        u_handleShortLinkRequest_def)
  show ?thesis
    using zero genuine wechat sysev other fw subReply_effect [of s k m]
      ack_routes_to_table [OF assms, of s t]
      new_work_resolves_nothing [OF assms, of s t] new_work_table [OF assms, of s t]
    by blast
qed

theorem zero_ack_is_new_work_witness:
  "u_onServerMessage ex_client ex_reply (Responds []) =
     u_completePendingRequest ex_client 1 (OtherPayload ''pong'' [1, 2]) 5 \<and>
   map_of (pendingCallbacks (run (constructor ''t1'' None) ex_events)) 0 = None \<and>
   grpcStream (u_onServerMessage ex_client ex_system_event (Responds [])) =
     grpcStream ex_client @
       [Write \<lparr> header = Some \<lparr> hdr_seq = None, hdr_ack = Some 3 \<rparr>, payload = SystemEventResponse \<rparr>] \<and>
   grpcStream (u_onServerMessage ex_client ex_short_link (Responds [6, 6])) =
     grpcStream ex_client @
       [Write \<lparr> header = Some \<lparr> hdr_seq = None, hdr_ack = Some 4 \<rparr>,
                payload = WeChatResponsePayload (ShortLinkResponse [6, 6]) \<rparr>] \<and>
   pendingCallbacks (u_onServerMessage ex_client ex_short_link (Responds [6, 6])) =
     pendingCallbacks ex_client"
proof -
  have h: "header ex_reply = Some \<lparr> hdr_seq = Some 5, hdr_ack = Some 1 \<rparr>"
    and a: "getAck \<lparr> hdr_seq = Some 5, hdr_ack = Some 1 \<rparr> = 1"
    and q: "getSeq \<lparr> hdr_seq = Some 5, hdr_ack = Some 1 \<rparr> = 5"
    and p: "payload ex_reply = OtherPayload ''pong'' [1, 2]"
    by (simp_all add: ex_reply_def getAck_def getSeq_def)
  have h': "header ex_system_event = Some \<lparr> hdr_seq = Some 3, hdr_ack = None \<rparr>"
    and a': "getAck \<lparr> hdr_seq = Some 3, hdr_ack = None \<rparr> = 0"
    and q': "getSeq \<lparr> hdr_seq = Some 3, hdr_ack = None \<rparr> = 3"
    and p': "payload ex_system_event = SystemEventRequestPayload ''login''"
    by (simp_all add: ex_system_event_def getAck_def getSeq_def)
  have h'': "header ex_short_link = Some \<lparr> hdr_seq = Some 4, hdr_ack = None \<rparr>"
    and a'': "getAck \<lparr> hdr_seq = Some 4, hdr_ack = None \<rparr> = 0"
    and q'': "getSeq \<lparr> hdr_seq = Some 4, hdr_ack = None \<rparr> = 4"
    and p'': "payload ex_short_link = WeChatRequestPayload (SHORTLINKREQUEST ''host'' 80 ''/cgi'' [1])"
    by (simp_all add: ex_short_link_def getAck_def getSeq_def)
  have c: "status ex_client = OK" "onSystemEventCallback ex_client = False"
    by (simp_all add: ex_defs)
  note t1 = zero_ack_is_new_work [OF h, of ex_client "Responds []" "''host''" "[1]" 4 "[6, 6]"
      0 80 "''/cgi''" "Error []" True SystemEventResponse "''t1''" None ex_events]
  note t2 = zero_ack_is_new_work [OF h', of ex_client "Responds []" "''host''" "[1]" 3 "[6, 6]"
      0 80 "''/cgi''" "Error []" True SystemEventResponse "''t1''" None ex_events]
  note t3 = zero_ack_is_new_work [OF h'', of ex_client "Responds [6, 6]" "''host''" "[1]" 4 "[6, 6]"
      0 80 "''/cgi''" "Error []" True "WeChatResponsePayload (ShortLinkResponse [6, 6])"
      "''t1''" None ex_events]
  have r1: "u_onServerMessage ex_client ex_reply (Responds []) =
      u_completePendingRequest ex_client 1 (OtherPayload ''pong'' [1, 2]) 5"
    and r2: "map_of (pendingCallbacks (run (constructor ''t1'' None) ex_events)) 0 = None"
    using t1 unfolding a q p by simp_all
  have r3: "u_onServerMessage ex_client ex_system_event (Responds []) =
      subReply ex_client 3 SystemEventResponse"
    using t2 p' c unfolding a' q' by (simp add: Let_def)
  have r4: "subReply ex_client 3 SystemEventResponse =
      ex_client\<lparr> grpcStream := grpcStream ex_client @
        [Write \<lparr> header = Some \<lparr> hdr_seq = None, hdr_ack = Some 3 \<rparr>, payload = SystemEventResponse \<rparr>] \<rparr>"
    using t2 c by simp
  have r5: "u_onServerMessage ex_client ex_short_link (Responds [6, 6]) =
      subReply ex_client 4 (WeChatResponsePayload (ShortLinkResponse [6, 6]))"
    using t3 p'' unfolding a'' q'' by simp
  have r6: "subReply ex_client 4 (WeChatResponsePayload (ShortLinkResponse [6, 6])) =
      ex_client\<lparr> grpcStream := grpcStream ex_client @
        [Write \<lparr> header = Some \<lparr> hdr_seq = None, hdr_ack = Some 4 \<rparr>,
                 payload = WeChatResponsePayload (ShortLinkResponse [6, 6]) \<rparr>] \<rparr>"
    using t3 c by simp
  show ?thesis
    using r1 r2 by (simp add: r3 r4 r5 r6)
qed

section \<open>Verification: the file transfer pipeline\<close>

text \<open>
  Claim C7. With a key given, \<open>encryptUploadData\<close> returns the ciphertext that the
  cipher gives for this key and the plaintext (the cipher gets the key and the data,
  nothing else), the key itself, and for the plaintext and for the ciphertext the
  length, the checksum with seed 0 and the hash, each computed by the one function on
  the whole buffer. The result does not depend on the key generator when a key is given,
  and with no key given it is the result for the generated key. Whenever decryption
  undoes encryption for the cipher, decrypting the returned ciphertext with the returned
  key gives the plaintext back.
\<close>

theorem encryptUploadData_deterministic_roundtrip:
  "encryptUploadData c fresh plain (Some key) =
     \<lparr> plainDataMeta =
         \<lparr> dm_size = length plain, dm_checksum = adler32 c plain 0, dm_md5 = md5 c plain \<rparr>,
       encryptedDataMeta =
         \<lparr> em_aeskey = key,
           em_size = length (AesEcbEncrypt c key plain),
           em_checksum = adler32 c (AesEcbEncrypt c key plain) 0,
           em_md5 = md5 c (AesEcbEncrypt c key plain) \<rparr>,
       encryptedData = AesEcbEncrypt c key plain \<rparr> \<and>
   encryptUploadData c fresh plain (Some key) = encryptUploadData c fresh' plain (Some key) \<and>
   encryptUploadData c fresh plain None = encryptUploadData c fresh' plain (Some fresh) \<and>
   ((\<forall>k p. decrypt k (AesEcbEncrypt c k p) = p) \<longrightarrow>
      decrypt (em_aeskey (encryptedDataMeta (encryptUploadData c fresh plain given)))
        (encryptedData (encryptUploadData c fresh plain given)) = plain)"
  by (simp add: encryptUploadData_def Let_def split: option.splits)

theorem encryptUploadData_deterministic_roundtrip_witness:
  "encryptUploadData ex_crypto [7] [1, 2, 3] (Some [9, 9]) =
     \<lparr> plainDataMeta = \<lparr> dm_size = 3, dm_checksum = 6, dm_md5 = ''aaa'' \<rparr>,
       encryptedDataMeta =
         \<lparr> em_aeskey = [9, 9], em_size = 5, em_checksum = 24, em_md5 = ''aaaaa'' \<rparr>,
       encryptedData = [9, 9, 1, 2, 3] \<rparr> \<and>
   ex_decrypt [9, 9] (encryptedData (encryptUploadData ex_crypto [7] [1, 2, 3] (Some [9, 9]))) = [1, 2, 3] \<and>
   ex_decrypt [7] (encryptedData (encryptUploadData ex_crypto [7] [1, 2, 3] None)) = [1, 2, 3]"
proof -
  have inv: "\<forall>k p. ex_decrypt k (AesEcbEncrypt ex_crypto k p) = p"
    by (simp add: ex_decrypt_def ex_crypto_def)
  have k: "em_aeskey (encryptedDataMeta (encryptUploadData ex_crypto [7] [1, 2, 3] (Some [9, 9]))) = [9, 9]"
    "em_aeskey (encryptedDataMeta (encryptUploadData ex_crypto [7] [1, 2, 3] None)) = [7]"
    by (simp_all add: encryptUploadData_def Let_def)
  have v: "adler32 ex_crypto [1, 2, 3] 0 = 6" "md5 ex_crypto [1, 2, 3] = ''aaa''"
    "AesEcbEncrypt ex_crypto [9, 9] [1, 2, 3] = [9, 9, 1, 2, 3]"
    "adler32 ex_crypto [9, 9, 1, 2, 3] 0 = 24" "md5 ex_crypto [9, 9, 1, 2, 3] = ''aaaaa''"
    by (simp_all add: ex_crypto_def)
  show ?thesis
    using encryptUploadData_deterministic_roundtrip
        [of ex_crypto "[7]" "[1, 2, 3]" "[9, 9]" "[7]" ex_decrypt "Some [9, 9]"]
      encryptUploadData_deterministic_roundtrip
        [of ex_crypto "[7]" "[1, 2, 3]" "[9, 9]" "[7]" ex_decrypt None]
      inv k v
    by (simp add: ex_decrypt_def)
qed




lemma receive_quiet:
  "quiet u d cs \<Longrightarrow> receive_chunks (onReceive u) (d, resp) cs = (False, (feed u d cs, resp))"
  by (induction cs arbitrary: d) (auto simp: onReceive_def split: prod.splits list.splits)

lemma receive_first_frame:
  "quiet u d pre \<Longrightarrow> fu_update u (feed u d pre) c = (r # rs, d') \<Longrightarrow>
     receive_chunks (onReceive u) (d, resp) (pre @ c # post) = (True, (d', Some r))"
  by (induction pre arbitrary: d) (auto simp: onReceive_def split: prod.splits list.splits)

text \<open>
  Claim C9. The decoder is built from the key of the request and reset on connect. If no
  chunk makes it give a frame, \<open>downloadFile\<close> fails: with "received null response" when
  the session ends, with the session's error when it breaks. If the chunks \<open>pre\<close> give no
  frame and the next chunk \<open>c\<close> gives the frames \<open>r # rs\<close>, then whatever follows \<open>c\<close> is
  not looked at and the outcome is decided by \<open>r\<close> alone: a failure carrying the result
  code when that is not 0, otherwise the field \<open>filedata\<close> of \<open>r\<close> decrypted with the
  key of the request. In particular a frame that is complete only with the second chunk
  is waited for.
\<close>

theorem downloadFile_first_frame:
  "(quiet u (fu_reset u (fu_new u (dl_unpackaeskey req))) chunks \<longrightarrow>
      downloadFile u req chunks None = Inl ReceivedNullResponse \<and>
      downloadFile u req chunks (Some e) = Inl (SocketFailed e)) \<and>
   (quiet u (fu_reset u (fu_new u (dl_unpackaeskey req))) pre \<and>
    fu_update u (feed u (fu_reset u (fu_new u (dl_unpackaeskey req))) pre) c = (r # rs, d') \<longrightarrow>
      downloadFile u req (pre @ c # post) failure =
        (if fu_unpackInteger u (map_of (body r) ''retcode'') \<noteq> 0
         then Inl (Retcode (fu_unpackInteger u (map_of (body r) ''retcode'')))
         else Inr (fu_decrypt u (dl_unpackaeskey req) (map_of (body r) ''filedata''))))"
  by (auto simp: downloadFile_def SocketClient_send_def Let_def receive_quiet receive_first_frame
      getDecryptedFileData_def)

theorem downloadFile_first_frame_witness:
  "downloadFile ex_unpacker ex_download [[0]] None = Inl ReceivedNullResponse \<and>
   downloadFile ex_unpacker ex_download [[0], [7, 8], [5, 5]] None = Inr [8] \<and>
   downloadFile ex_unpacker ex_download [[3], [7, 8]] None = Inl (Retcode 3)"
proof -
  let ?d0 = "fu_reset ex_unpacker (fu_new ex_unpacker (dl_unpackaeskey ex_download))"
  have q0: "quiet ex_unpacker ?d0 [[0]]" and q3: "quiet ex_unpacker ?d0 [[3]]"
    by (simp_all add: ex_unpacker_def)
  have f0: "fu_update ex_unpacker (feed ex_unpacker ?d0 [[0]]) [7, 8] =
      ([\<lparr> body = [(''retcode'', [0]), (''filedata'', [7, 8])] \<rparr>], [])"
    and f3: "fu_update ex_unpacker (feed ex_unpacker ?d0 [[3]]) [7, 8] =
      ([\<lparr> body = [(''retcode'', [3]), (''filedata'', [7, 8])] \<rparr>], [])"
    by (simp_all add: ex_unpacker_def)
  have v: "fu_unpackInteger ex_unpacker (Some [0]) = 0" "fu_unpackInteger ex_unpacker (Some [3]) = 3"
    "fu_decrypt ex_unpacker (dl_unpackaeskey ex_download) (Some [7, 8]) = [8]"
    by (simp_all add: ex_unpacker_def ex_download_def)
  have a: "downloadFile ex_unpacker ex_download [[0]] None = Inl ReceivedNullResponse"
    using downloadFile_first_frame [of ex_unpacker ex_download "[[0]]"] q0 by blast
  have b: "downloadFile ex_unpacker ex_download ([[0]] @ [7, 8] # [[5, 5]]) None = Inr [8]"
    using downloadFile_first_frame [of ex_unpacker ex_download "[]" "Error []" "[[0]]" "[7, 8]"
        "\<lparr> body = [(''retcode'', [0]), (''filedata'', [7, 8])] \<rparr>" "[]" "[]" "[[5, 5]]" None]
      q0 f0 v by simp
  have c: "downloadFile ex_unpacker ex_download ([[3]] @ [7, 8] # []) None = Inl (Retcode 3)"
    using downloadFile_first_frame [of ex_unpacker ex_download "[]" "Error []" "[[3]]" "[7, 8]"
        "\<lparr> body = [(''retcode'', [3]), (''filedata'', [7, 8])] \<rparr>" "[]" "[]" "[]" None]
      q3 f3 v by simp
  show ?thesis using a b c by simp
qed

end
